theory Spec2Isabelle
  imports Complex_Main "HOL-Library.Log_Nat"
begin

section \<open>Values, exceptions and the command-line arguments\<close>

text \<open>
  The pipeline under study is the function \<open>analysis(args)\<close> of
  \<^verbatim>\<open>nmma/em/analysis.py\<close>. Its numbers are IEEE doubles. A double is modelled as a
  real number or one of the three special values, so \<open>np.isfinite\<close> and \<open>np.isnan\<close>
  are what the source computes. Overflow is not modelled. Rounding is modelled in the
  time grid, where the number of points depends on it; the sums of the chi-square are
  taken exactly.
\<close>

datatype flt = Fin real | PInf | NInf | NaN

fun isfinite :: "flt \<Rightarrow> bool" where
  "isfinite (Fin x) = True"
| "isfinite PInf = False"
| "isfinite NInf = False"
| "isfinite NaN = False"

fun isnan :: "flt \<Rightarrow> bool" where
  "isnan NaN = True"
| "isnan (Fin x) = False"
| "isnan PInf = False"
| "isnan NInf = False"

text \<open>
  The exceptions the modelled lines can raise. \<open>exit()\<close> raises \<open>SystemExit\<close> with
  the code it was given (\<open>None\<close> when called without argument). The interpreter turns
  an uncaught \<open>SystemExit(None)\<close> into process status 0, \<open>SystemExit(n)\<close> into status
  \<open>n\<close>, and any other uncaught exception into status 1.
\<close>

datatype py_error =
    ValueError
  | KeyError
  | ZeroDivisionError
  | IndexError
  | UnboundLocalError
  | SystemExit "nat option"

fun exit_status :: "py_error \<Rightarrow> nat" where
  "exit_status (SystemExit None) = 0"
| "exit_status (SystemExit (Some n)) = n"
| "exit_status ValueError = 1"
| "exit_status KeyError = 1"
| "exit_status ZeroDivisionError = 1"
| "exit_status IndexError = 1"
| "exit_status UnboundLocalError = 1"

text \<open>
  What a run does besides computing: lines printed, and the call of
  \<open>bilby.run_sampler\<close> with the live-point count it receives (\<open>None\<close> in Python is
  \<open>None\<close> here).
\<close>

datatype event =
    Print string
  | PrintFilters "string list"
  | PrintKwargs
  | RunSampler string "int option"

type_synonym 'a run = "event list \<times> (py_error + 'a)"

definition ret :: "'a \<Rightarrow> 'a run" where
  "ret x = ([], Inr x)"

definition raise :: "py_error \<Rightarrow> 'a run" where
  "raise e = ([], Inl e)"

definition emit :: "event \<Rightarrow> unit run" where
  "emit ev = ([ev], Inr ())"

definition bind_run :: "'a run \<Rightarrow> ('a \<Rightarrow> 'b run) \<Rightarrow> 'b run" where
  "bind_run m f =
     (case m of
        (tr, Inl e) \<Rightarrow> (tr, Inl e)
      | (tr, Inr x) \<Rightarrow> (case f x of (tr', r) \<Rightarrow> (tr @ tr', r)))"

definition sampler_called :: "event list \<Rightarrow> bool" where
  "sampler_called tr = (\<exists>ev \<in> set tr. case ev of RunSampler s n \<Rightarrow> True | _ \<Rightarrow> False)"

text \<open>
  The fields of \<open>args\<close> that the modelled lines read. A string option that argparse
  leaves at \<open>None\<close> is \<open>None\<close>; \<open>error_budget\<close> is a string from the command line and
  a number when it comes from a YAML configuration (line 613 tests for both).
\<close>

datatype eb_arg = EBNum real | EBStr string

record args =
  sampler :: string
  outdir :: string
  log_space_time :: bool
  n_tstep :: "int option"
  tmin :: real
  tmax :: real
  dt :: real
  filters :: "string option"
  photometry_augmentation_filters :: "string option"
  error_budget :: eb_arg
  remove_nondetections :: bool
  reactive_sampling :: bool
  nlive :: int
  skip_sampling :: bool
  injection_detection_limit :: "string option"
  bestfit :: bool
  plot :: bool

text \<open>Python truthiness of an optional string: \<open>None\<close> and the empty string are false.\<close>

fun truthy_str :: "string option \<Rightarrow> bool" where
  "truthy_str None = False"
| "truthy_str (Some s) = (s \<noteq> [])"

section \<open>Output-directory check (lines 401-406)\<close>

definition check_outdir :: "args \<Rightarrow> unit run" where
  "check_outdir a =
     (if sampler a = ''pymultinest'' then
        (if length (outdir a) > 64 then
           bind_run
             (emit (Print ''WARNING: output directory name is too long, it should not be longer than 64 characters''))
             (\<lambda>_. raise (SystemExit None))
         else ret ())
      else ret ())"

section \<open>Time grid (lines 422-431)\<close>

text \<open>
  \<open>int(x)\<close> on a float truncates towards zero. Division of Python floats by zero
  raises. The test \<open>if args.n_tstep\<close> is false for \<open>None\<close> and for 0; the parser's
  default is 50. The arithmetic on the special values is that of IEEE.
\<close>

definition py_int :: "real \<Rightarrow> int" where
  "py_int x = (if 0 \<le> x then \<lfloor>x\<rfloor> else \<lceil>x\<rceil>)"

fun fneg :: "flt \<Rightarrow> flt" where
  "fneg (Fin a) = Fin (- a)"
| "fneg PInf = NInf"
| "fneg NInf = PInf"
| "fneg NaN = NaN"

fun fadd :: "flt \<Rightarrow> flt \<Rightarrow> flt" where
  "fadd (Fin a) (Fin b) = Fin (a + b)"
| "fadd (Fin a) PInf = PInf"
| "fadd (Fin a) NInf = NInf"
| "fadd PInf (Fin b) = PInf"
| "fadd PInf PInf = PInf"
| "fadd PInf NInf = NaN"
| "fadd NInf (Fin b) = NInf"
| "fadd NInf PInf = NaN"
| "fadd NInf NInf = NInf"
| "fadd NaN y = NaN"
| "fadd (Fin a) NaN = NaN"
| "fadd PInf NaN = NaN"
| "fadd NInf NaN = NaN"

definition fsub :: "flt \<Rightarrow> flt \<Rightarrow> flt" where
  "fsub x y = fadd x (fneg y)"

definition inf_signed :: "real \<Rightarrow> flt" where
  "inf_signed a = (if a = 0 then NaN else if 0 < a then PInf else NInf)"

fun fmul :: "flt \<Rightarrow> flt \<Rightarrow> flt" where
  "fmul (Fin a) (Fin b) = Fin (a * b)"
| "fmul (Fin a) PInf = inf_signed a"
| "fmul (Fin a) NInf = inf_signed (- a)"
| "fmul PInf (Fin b) = inf_signed b"
| "fmul NInf (Fin b) = inf_signed (- b)"
| "fmul PInf PInf = PInf"
| "fmul PInf NInf = NInf"
| "fmul NInf PInf = NInf"
| "fmul NInf NInf = PInf"
| "fmul NaN y = NaN"
| "fmul (Fin a) NaN = NaN"
| "fmul PInf NaN = NaN"
| "fmul NInf NaN = NaN"

text \<open>
  Division of numpy doubles: a zero divisor gives an infinity of the dividend's sign,
  or \<open>nan\<close> for \<open>0 / 0\<close>. Every zero divisor of the modelled lines is a sum of squares
  or a difference \<open>x - x\<close>, hence the positive zero.
\<close>

fun fdiv :: "flt \<Rightarrow> flt \<Rightarrow> flt" where
  "fdiv (Fin a) (Fin b) = (if b = 0 then inf_signed a else Fin (a / b))"
| "fdiv (Fin a) PInf = Fin 0"
| "fdiv (Fin a) NInf = Fin 0"
| "fdiv PInf (Fin b) = (if 0 \<le> b then PInf else NInf)"
| "fdiv NInf (Fin b) = (if 0 \<le> b then NInf else PInf)"
| "fdiv PInf PInf = NaN"
| "fdiv PInf NInf = NaN"
| "fdiv NInf PInf = NaN"
| "fdiv NInf NInf = NaN"
| "fdiv NaN y = NaN"
| "fdiv (Fin a) NaN = NaN"
| "fdiv PInf NaN = NaN"
| "fdiv NInf NaN = NaN"

definition fsq :: "flt \<Rightarrow> flt" where
  "fsq x = fmul x x"

subsection \<open>Rounding\<close>

text \<open>
  Each of \<open>+\<close>, \<open>-\<close>, \<open>*\<close> and \<open>/\<close> on doubles returns the exact result rounded
  to the nearest number with 53 significant bits, a tie going to the even one:
  \<open>rnd\<close>. \<open>rne\<close> rounds to the nearest integer, a tie going to the even one; a
  number \<open>x\<close> with \<open>2 ^ e \<le> |x| < 2 ^ (e + 1)\<close> is rounded to a multiple of
  \<open>2 ^ (e - 52)\<close>. That exponent \<open>e\<close> is \<open>expo |x|\<close>; it is read off from the
  number of bits of the integer part of \<open>|x|\<close>, or of \<open>1 / |x|\<close> below 1. Overflow
  and underflow are not modelled.
\<close>

definition rne :: "real \<Rightarrow> int" where
  "rne y =
     (let f = \<lfloor>y\<rfloor>
      in if y - of_int f < 1 / 2 then f
         else if 1 / 2 < y - of_int f then f + 1
         else if even f then f else f + 1)"

definition expo :: "real \<Rightarrow> int" where
  "expo x =
     (if 1 \<le> x then bitlen \<lfloor>x\<rfloor> - 1
      else (let j = bitlen \<lfloor>1 / x\<rfloor> - 1
            in if 1 / x = 2 ^ nat j then - j else - j - 1))"

definition rnd :: "real \<Rightarrow> real" where
  "rnd x =
     (if x = 0 then 0
      else (let e = expo \<bar>x\<bar> - 52
            in if 0 \<le> e then of_int (rne (x / 2 ^ nat e)) * 2 ^ nat e
               else of_int (rne (x * 2 ^ nat (- e))) / 2 ^ nat (- e)))"

fun fround :: "flt \<Rightarrow> flt" where
  "fround (Fin x) = Fin (rnd x)"
| "fround PInf = PInf"
| "fround NInf = NInf"
| "fround NaN = NaN"

text \<open>
  \<open>np.log10\<close> and \<open>np.power\<close> call the mathematical library of the platform, whose
  rounding is not fixed by a standard: the two functions are parameters of the model.
  \<open>np.log10\<close> of zero is \<open>-inf\<close> and of a negative number \<open>nan\<close>. A library
  that rounds the exact value correctly is \<open>correct_libm\<close>.
\<close>

record libm =
  log10d :: "real \<Rightarrow> real"
  pow10d :: "real \<Rightarrow> real"

definition correct_libm :: libm where
  "correct_libm = \<lparr> log10d = (\<lambda>x. rnd (log 10 x)), pow10d = (\<lambda>y. rnd (10 powr y)) \<rparr>"

definition np_log10 :: "libm \<Rightarrow> real \<Rightarrow> flt" where
  "np_log10 lm x = (if 0 < x then Fin (log10d lm x) else if x = 0 then NInf else NaN)"

fun pow10 :: "libm \<Rightarrow> flt \<Rightarrow> flt" where
  "pow10 lm (Fin e) = Fin (pow10d lm e)"
| "pow10 lm PInf = PInf"
| "pow10 lm NInf = Fin 0"
| "pow10 lm NaN = NaN"

subsection \<open>The numpy functions and the grid\<close>

text \<open>
  \<open>np.arange(start, stop, step)\<close> on doubles has \<open>ceil((stop - start) / step)\<close>
  entries (none when that is not positive), the quotient being the double one. Its
  first entry is \<open>start\<close>, its second \<open>start + step\<close>, and entry \<open>i\<close> from the
  third on is \<open>start + i * delta\<close> with \<open>delta\<close> the second entry minus the first.

  \<open>np.linspace(start, stop, num)\<close> computes \<open>delta = stop - start\<close> and
  \<open>step = delta / (num - 1)\<close>, the entries \<open>i * step + start\<close> (or
  \<open>i / (num - 1) * delta + start\<close> when \<open>step\<close> is zero), and then sets the last
  entry to \<open>stop\<close>; with one entry it is \<open>0 * delta + start\<close>.
  \<open>np.logspace(a, b, n)\<close> is \<open>10 ** linspace(a, b, n)\<close> and raises \<open>ValueError\<close>
  for a negative count.
\<close>

definition np_arange :: "real \<Rightarrow> real \<Rightarrow> real \<Rightarrow> real list" where
  "np_arange start stop step =
     (let len = nat \<lceil>rnd (rnd (stop - start) / step)\<rceil>;
          next = rnd (start + step);
          delta = rnd (next - start)
      in map (\<lambda>i. if i = 0 then start
                  else if i = 1 then next
                  else rnd (start + rnd (real i * delta)))
             [0 ..< len])"

definition np_linspace :: "flt \<Rightarrow> flt \<Rightarrow> nat \<Rightarrow> flt list" where
  "np_linspace start stop num =
     (let delta = fround (fsub stop start);
          y = (if 1 < num then
                 (let step = fround (fdiv delta (Fin (real (num - 1))))
                  in if step = Fin 0 then
                       map (\<lambda>i. fround (fmul (fround (fdiv (Fin (real i)) (Fin (real (num - 1)))))
                                             delta))
                           [0 ..< num]
                     else map (\<lambda>i. fround (fmul (Fin (real i)) step)) [0 ..< num])
               else map (\<lambda>i. fround (fmul (Fin (real i)) delta)) [0 ..< num]);
          y' = map (\<lambda>v. fround (fadd v start)) y
      in if 1 < num then butlast y' @ [stop] else y')"

definition np_logspace :: "libm \<Rightarrow> flt \<Rightarrow> flt \<Rightarrow> int \<Rightarrow> py_error + flt list" where
  "np_logspace lm a b n =
     (if n < 0 then Inl ValueError else Inr (map (pow10 lm) (np_linspace a b (nat n))))"

definition n_step_of :: "args \<Rightarrow> py_error + int" where
  "n_step_of a =
     (case n_tstep a of
        Some k \<Rightarrow>
          (if k \<noteq> 0 then Inr k
           else if dt a = 0 then Inl ZeroDivisionError
           else Inr (py_int (rnd (rnd (tmax a - tmin a) / dt a))))
      | None \<Rightarrow>
          (if dt a = 0 then Inl ZeroDivisionError
           else Inr (py_int (rnd (rnd (tmax a - tmin a) / dt a)))))"

definition sample_times :: "libm \<Rightarrow> args \<Rightarrow> py_error + flt list" where
  "sample_times lm a =
     (if log_space_time a then
        (case n_step_of a of
           Inl e \<Rightarrow> Inl e
         | Inr n \<Rightarrow>
             np_logspace lm (np_log10 lm (tmin a)) (np_log10 lm (rnd (tmax a + dt a))) n)
      else if dt a = 0 then Inl ZeroDivisionError
      else Inr (map Fin (np_arange (tmin a) (rnd (tmax a + dt a)) (dt a))))"

section \<open>Live-point count and sampler call (lines 686-716)\<close>

text \<open>
  \<open>nlive\<close> is a local variable of \<open>analysis\<close>, assigned only at lines 691 and 693.
  Reading a local that no executed statement has assigned raises
  \<open>UnboundLocalError\<close>; the arguments of \<open>bilby.run_sampler\<close> are evaluated before
  the call.
\<close>

datatype 'a local_var = Unbound | Bound 'a

definition select_nlive :: "args \<Rightarrow> (int option) local_var run" where
  "select_nlive a =
     (if reactive_sampling a then
        (if sampler a \<noteq> ''ultranest'' then
           bind_run (emit (Print ''Reactive sampling is only available in ultranest''))
             (\<lambda>_. ret Unbound)
         else
           bind_run (emit (Print ''Running with reactive-sampling in ultranest''))
             (\<lambda>_. ret (Bound None)))
      else ret (Bound (Some (nlive a))))"

definition read_local :: "'a local_var \<Rightarrow> 'a run" where
  "read_local v = (case v of Unbound \<Rightarrow> raise UnboundLocalError | Bound x \<Rightarrow> ret x)"

definition run_sampler :: "args \<Rightarrow> unit run" where
  "run_sampler a =
     bind_run (select_nlive a) (\<lambda>nl.
     bind_run (if skip_sampling a
               then emit (Print ''Sampling for 1 iteration and plotting checkpointed results.'')
               else ret ()) (\<lambda>_.
     bind_run (read_local nl) (\<lambda>n.
     emit (RunSampler (sampler a) n))))"

section \<open>The loaded light curves and their validation (lines 590-611)\<close>

text \<open>
  \<open>data\<close> is a dict from filter name to an array with the columns epoch, magnitude,
  magnitude uncertainty. A dict keeps its keys in insertion order, so it is an
  association list with distinct keys. Epochs are finite times; a magnitude may be
  \<open>nan\<close> and an uncertainty \<open>inf\<close>, which is how a non-detection is written.
  \<open>np.where(bs)[0]\<close> is the list of positions at which \<open>bs\<close> is true.
  An array without rows is \<open>np.array([])\<close>, which the JSON reading of line 576 makes
  of an empty list: it has one dimension, and \<open>data[filt][:, 2]\<close> raises
  \<open>IndexError\<close> on it. The removal of lines 590 to 596 deletes the filters it leaves
  without rows.
\<close>

type_synonym row = "real \<times> flt \<times> flt"
type_synonym dataset = "(string \<times> row list) list"

definition epoch :: "row \<Rightarrow> real" where
  "epoch r = fst r"

definition magnitude :: "row \<Rightarrow> flt" where
  "magnitude r = fst (snd r)"

definition uncertainty :: "row \<Rightarrow> flt" where
  "uncertainty r = snd (snd r)"

definition np_where :: "bool list \<Rightarrow> nat list" where
  "np_where bs = [i \<leftarrow> [0 ..< length bs]. bs ! i]"

definition take_rows :: "'a list \<Rightarrow> nat list \<Rightarrow> 'a list" where
  "take_rows xs idx = map (\<lambda>i. xs ! i) idx"

fun remove_nondet :: "dataset \<Rightarrow> py_error + dataset" where
  "remove_nondet [] = Inr []"
| "remove_nondet ((filt, rows) # rest) =
     (if rows = [] then Inl IndexError
      else
        (let idx = np_where (map (\<lambda>r. isfinite (uncertainty r)) rows)
         in case remove_nondet rest of
              Inl e \<Rightarrow> Inl e
            | Inr rest' \<Rightarrow>
                if length idx = 0 then Inr rest' else Inr ((filt, take_rows rows idx) # rest')))"

text \<open>The loop of lines 601-609 with its two flags and its \<open>break\<close>.\<close>

fun check_loop :: "bool \<Rightarrow> bool \<Rightarrow> dataset \<Rightarrow> py_error + (bool \<times> bool)" where
  "check_loop detection notallnan [] = Inr (detection, notallnan)"
| "check_loop detection notallnan ((filt, rows) # rest) =
     (if rows = [] then Inl IndexError
      else
        (let detection' =
               (if length (np_where (map (\<lambda>r. isfinite (uncertainty r)) rows)) > 0
                then True else detection);
             notallnan' =
               (if length (np_where (map (\<lambda>r. isfinite (magnitude r)) rows)) > 0
                then True else notallnan)
         in if detection' \<and> notallnan' then Inr (detection', notallnan')
            else check_loop detection' notallnan' rest))"

definition check_detections :: "dataset \<Rightarrow> py_error + unit" where
  "check_detections data =
     (case check_loop False False data of
        Inl e \<Rightarrow> Inl e
      | Inr (detection, notallnan) \<Rightarrow>
          if \<not> detection \<or> \<not> notallnan then Inl ValueError else Inr ())"

definition after_removal :: "args \<Rightarrow> dataset \<Rightarrow> py_error + dataset" where
  "after_removal a loaded =
     (if remove_nondetections a then remove_nondet loaded else Inr loaded)"

definition validate :: "args \<Rightarrow> dataset \<Rightarrow> py_error + dataset" where
  "validate a loaded =
     (case after_removal a loaded of
        Inl e \<Rightarrow> Inl e
      | Inr data \<Rightarrow>
          (case check_detections data of Inl e \<Rightarrow> Inl e | Inr u \<Rightarrow> Inr data))"

text \<open>
  The conditions the specification speaks of: some filter holds a point with finite
  uncertainty; some filter holds a finite magnitude; some filter holds a magnitude
  that is not \<open>nan\<close>; every point is a non-detection.  And the data model of the
  specification: the points are grouped by filter, so that every filter of the dataset
  holds a point, and a magnitude is a real number or \<open>nan\<close>.
\<close>

definition has_detection :: "dataset \<Rightarrow> bool" where
  "has_detection data = (\<exists>fr \<in> set data. \<exists>r \<in> set (snd fr). isfinite (uncertainty r))"

definition has_finite_mag :: "dataset \<Rightarrow> bool" where
  "has_finite_mag data = (\<exists>fr \<in> set data. \<exists>r \<in> set (snd fr). isfinite (magnitude r))"

definition has_non_nan_mag :: "dataset \<Rightarrow> bool" where
  "has_non_nan_mag data = (\<exists>fr \<in> set data. \<exists>r \<in> set (snd fr). \<not> isnan (magnitude r))"

definition all_nondetections :: "dataset \<Rightarrow> bool" where
  "all_nondetections data =
     (\<forall>fr \<in> set data. \<forall>r \<in> set (snd fr). \<not> isfinite (uncertainty r))"

definition every_filter_has_a_point :: "dataset \<Rightarrow> bool" where
  "every_filter_has_a_point data = (\<forall>fr \<in> set data. snd fr \<noteq> [])"

definition magnitudes_real_or_nan :: "dataset \<Rightarrow> bool" where
  "magnitudes_real_or_nan data =
     (\<forall>fr \<in> set data. \<forall>r \<in> set (snd fr). magnitude r \<noteq> PInf \<and> magnitude r \<noteq> NInf)"

section \<open>Analysed filters and error budget (lines 613-647)\<close>

text \<open>
  \<open>s.split(",")\<close> always returns at least one piece. \<open>float(x)\<close> is a parameter
  \<open>pf\<close> of the model (\<open>None\<close> where Python raises \<open>ValueError\<close>). \<open>list(set(xs))\<close>
  lists the distinct members of \<open>xs\<close> in the set's iteration order, which for strings
  changes from one interpreter run to the next: it is the parameter \<open>so\<close>, and
  \<open>set_order_ok so\<close> says that \<open>so\<close> is such a listing. A dict built from pairs
  keeps the last value of a repeated key. \<open>sorted\<close> is stable.
\<close>

fun split_comma :: "string \<Rightarrow> string list" where
  "split_comma [] = [[]]"
| "split_comma (c # cs) =
     (if c = CHR '','' then [] # split_comma cs
      else (case split_comma cs of
              [] \<Rightarrow> [[c]]
            | w # ws \<Rightarrow> (c # w) # ws))"

definition set_order_ok :: "(string list \<Rightarrow> string list) \<Rightarrow> bool" where
  "set_order_ok so = (\<forall>xs. distinct (so xs) \<and> set (so xs) = set xs)"

definition dict_of :: "('k \<times> 'v) list \<Rightarrow> ('k \<rightharpoonup> 'v)" where
  "dict_of kvs = fold (\<lambda>kv m. m(fst kv \<mapsto> snd kv)) kvs Map.empty"

definition values_to_indices :: "string list \<Rightarrow> (string \<rightharpoonup> nat)" where
  "values_to_indices fs = dict_of (zip fs [0 ..< length fs])"

fun parse_floats :: "(string \<Rightarrow> flt option) \<Rightarrow> string list \<Rightarrow> py_error + flt list" where
  "parse_floats pf [] = Inr []"
| "parse_floats pf (x # xs) =
     (case pf x of
        None \<Rightarrow> Inl ValueError
      | Some v \<Rightarrow> (case parse_floats pf xs of Inl e \<Rightarrow> Inl e | Inr vs \<Rightarrow> Inr (v # vs)))"

definition error_budget_list :: "(string \<Rightarrow> flt option) \<Rightarrow> args \<Rightarrow> py_error + flt list" where
  "error_budget_list pf a =
     (case error_budget a of
        EBNum x \<Rightarrow> Inr [Fin x]
      | EBStr s \<Rightarrow> parse_floats pf (split_comma s))"

definition filter_list :: "(string list \<Rightarrow> string list) \<Rightarrow> args \<Rightarrow> string \<Rightarrow> string list" where
  "filter_list so a f =
     (case photometry_augmentation_filters a of
        None \<Rightarrow> split_comma f
      | Some aug \<Rightarrow>
          (if aug \<noteq> [] then so (split_comma f @ split_comma aug) else split_comma f))"

definition filters_to_analyze ::
  "(string list \<Rightarrow> string list) \<Rightarrow> args \<Rightarrow> string list \<Rightarrow> string list" where
  "filters_to_analyze so a keys =
     (case filters a of
        None \<Rightarrow> keys
      | Some f \<Rightarrow>
          (if f = [] then keys
           else
             (let fs = filter_list so a f;
                  v2i = values_to_indices fs
              in sort_key (\<lambda>v. the (v2i v)) (so (filter (\<lambda>v. v \<in> set keys) fs)))))"

definition resolve ::
  "(string \<Rightarrow> flt option) \<Rightarrow> (string list \<Rightarrow> string list) \<Rightarrow> args \<Rightarrow> string list
     \<Rightarrow> py_error + (string list \<times> (string \<rightharpoonup> flt))" where
  "resolve pf so a keys =
     (case error_budget_list pf a of
        Inl e \<Rightarrow> Inl e
      | Inr eb \<Rightarrow>
          (let fta = filters_to_analyze so a keys
           in case filters a of
                None \<Rightarrow> Inr (fta, dict_of (zip fta (concat (replicate (length fta) eb))))
              | Some f \<Rightarrow>
                  (if f = [] then
                     Inr (fta, dict_of (zip fta (concat (replicate (length fta) eb))))
                   else if length eb = 1 then
                     Inr (fta, dict_of (zip fta (concat (replicate (length fta) eb))))
                   else if length (split_comma f) = length eb then
                     Inr (fta, dict_of (zip (split_comma f) eb))
                   else Inl ValueError)))"

section \<open>The run up to the sampler call\<close>

text \<open>
  The statements of \<open>analysis\<close> from line 401 to line 716 in observation mode, in
  the order of the source, for an event table that has been read (\<open>loaded\<close>) and a
  trigger time given on the command line. The calls into other modules on the way
  (model, prior and likelihood construction, \<open>literal_eval\<close> of the sampler keywords)
  are taken to return; they do not touch \<open>data\<close>. The defaults are those of
  \<open>get_parser\<close>; the defaults 0.05 of \<open>tmin\<close> and 0.1 of \<open>dt\<close> are the doubles
  nearest to these decimals, \<open>3602879701896397 / 2 ^ 56\<close> and
  \<open>3602879701896397 / 2 ^ 55\<close>.
\<close>

definition lift :: "py_error + 'a \<Rightarrow> 'a run" where
  "lift r = ([], r)"

definition analysis_front ::
  "libm \<Rightarrow> (string \<Rightarrow> flt option) \<Rightarrow> (string list \<Rightarrow> string list) \<Rightarrow> args \<Rightarrow> dataset
     \<Rightarrow> (flt list \<times> dataset \<times> string list \<times> (string \<rightharpoonup> flt)) run" where
  "analysis_front lm pf so a loaded =
     bind_run (check_outdir a) (\<lambda>u.
     bind_run (lift (sample_times lm a)) (\<lambda>grid.
     bind_run (emit (Print ''Creating light curve model for inference'')) (\<lambda>u.
     bind_run (lift (validate a loaded)) (\<lambda>data.
     bind_run (lift (resolve pf so a (map fst data))) (\<lambda>fe.
     bind_run (emit (PrintFilters (fst fe))) (\<lambda>u.
     bind_run (emit (Print ''Running with the following additional sampler_kwargs:'')) (\<lambda>u.
     bind_run (emit PrintKwargs) (\<lambda>u.
     bind_run (run_sampler a) (\<lambda>u.
     ret (grid, data, fst fe, snd fe))))))))))"

definition default_args :: args where
  "default_args =
     \<lparr> sampler = ''pymultinest'', outdir = ''outdir'', log_space_time = False,
       n_tstep = Some 50, tmin = 3602879701896397 / 72057594037927936, tmax = 14,
       dt = 3602879701896397 / 36028797018963968, filters = None,
       photometry_augmentation_filters = None, error_budget = EBStr ''1.0'',
       remove_nondetections = False, reactive_sampling = False, nlive = 2048,
       skip_sampling = False, injection_detection_limit = None,
       bestfit = False, plot = False \<rparr>"

text \<open>
  Small event tables used as worked inputs of the validation: limits only; a detection
  without magnitude in one filter and a limit in another; a filter without rows.
\<close>

definition only_limits_data :: dataset where
  "only_limits_data = [(''g'', [(59000, Fin 21, PInf)]), (''r'', [(59001, Fin 22, PInf)])]"

definition mixed_data :: dataset where
  "mixed_data = [(''g'', [(59000, NaN, Fin (1 / 10))]), (''r'', [(59001, Fin 22, PInf)])]"

definition empty_filter_data :: dataset where
  "empty_filter_data = [(''g'', []), (''r'', [(59000, Fin 20, Fin (1 / 10))])]"


text \<open>
  A grid of three points over two decades, a grid with the step 0.5, a grid whose step
  64 is below the spacing 256 of the doubles at its start \<open>2 ^ 60\<close>, and two grids
  with the step 0.1, which is the double \<open>3602879701896397 / 2 ^ 55\<close> (1.2 is the
  double \<open>5404319552844595 / 2 ^ 52\<close>).
\<close>

definition decade_args :: args where
  "decade_args = default_args\<lparr>log_space_time := True, n_tstep := Some 3,
                               tmin := 1, tmax := 99, dt := 1\<rparr>"

definition half_step_args :: args where
  "half_step_args = default_args\<lparr>tmin := 1, tmax := 2, dt := 1 / 2\<rparr>"


definition tenth_args :: args where
  "tenth_args = default_args\<lparr>log_space_time := True, n_tstep := None,
                              tmin := 3602879701896397 / 36028797018963968, tmax := 2,
                              dt := 3602879701896397 / 36028797018963968\<rparr>"

definition fifth_args :: args where
  "fifth_args = default_args\<lparr>tmin := 1, tmax := 5404319552844595 / 4503599627370496,
                              dt := 3602879701896397 / 36028797018963968\<rparr>"

text \<open>
  Worked inputs of the filter and error-budget resolution: the values of \<open>float\<close> on
  the strings that occur in them, one admissible iteration order of a set (the
  reverse of first occurrence), and three argument records.
\<close>

definition float_tbl :: "string \<Rightarrow> flt option" where
  "float_tbl s =
     map_of [(''0.1'', Fin (1 / 10)), (''0.2'', Fin (2 / 10)), (''0.3'', Fin (3 / 10)),
             (''1.0'', Fin 1)] s"

definition rev_order :: "string list \<Rightarrow> string list" where
  "rev_order xs = rev (remdups xs)"

definition augmented_args :: args where
  "augmented_args = default_args\<lparr>filters := Some ''g,r'',
                                   photometry_augmentation_filters := Some ''i''\<rparr>"

definition budget_args :: args where
  "budget_args = default_args\<lparr>filters := Some ''g,r,i'', error_budget := EBStr ''0.1,0.2''\<rparr>"

definition budget_args_no_filters :: args where
  "budget_args_no_filters = default_args\<lparr>error_budget := EBStr ''0.1,0.2''\<rparr>"

definition budget_ok_args :: args where
  "budget_ok_args = default_args\<lparr>filters := Some ''g,r'', error_budget := EBStr ''0.1,0.2''\<rparr>"

section \<open>The injection table (lines 434-440 and 500-565)\<close>

text \<open>
  The local variable \<open>filters\<close> of lines 434 to 440 is the requested list with all
  blanks removed, or \<open>None\<close>. The table \<open>data_out\<close> gets one row of six cells for
  each point of each filter that is not skipped. The cells of a row are modelled by
  their values (the array holds their decimal text, because the filter name is a
  string). \<open>sort_values\<close> and \<open>reset_index\<close> of lines 563 and 564 reorder the rows and
  leave every row as it is, so the rows of the file are those of \<open>data_out\<close>.
\<close>

definition strip_spaces :: "string \<Rightarrow> string" where
  "strip_spaces s = filter (\<lambda>c. c \<noteq> CHR '' '') s"

definition filters_var :: "args \<Rightarrow> py_error + string list option" where
  "filters_var a =
     (case filters a of
        None \<Rightarrow> Inr None
      | Some f \<Rightarrow>
          (if f = [] then Inr None
           else (let fs = split_comma (strip_spaces f)
                 in if length fs = 0 then Inl ValueError else Inr (Some fs))))"

definition detection_limit ::
  "(string \<Rightarrow> flt option) \<Rightarrow> args \<Rightarrow> string list option \<Rightarrow> py_error + (string \<rightharpoonup> flt)" where
  "detection_limit pf a fs =
     (case fs of
        None \<Rightarrow> Inr Map.empty
      | Some l \<Rightarrow>
          (case injection_detection_limit a of
             None \<Rightarrow> Inr (dict_of (map (\<lambda>x. (x, PInf)) l))
           | Some s \<Rightarrow>
               (case parse_floats pf (map snd (zip l (split_comma s))) of
                  Inl e \<Rightarrow> Inl e
                | Inr vs \<Rightarrow> Inr (dict_of (zip l vs)))))"

record table_row =
  jd :: real
  mag :: flt
  mag_unc :: flt
  filt :: string
  limmag :: flt
  programid :: real

definition table_row_of :: "(string \<rightharpoonup> flt) \<Rightarrow> string \<Rightarrow> row \<Rightarrow> table_row" where
  "table_row_of dl f r =
     (case r of (mjd, m, u) \<Rightarrow>
        if \<not> isfinite u then
          \<lparr> jd = mjd, mag = Fin 99, mag_unc = Fin 99, filt = f, limmag = m, programid = 0 \<rparr>
        else
          (case dl f of
             Some l \<Rightarrow>
               \<lparr> jd = mjd, mag = m, mag_unc = u, filt = f, limmag = l, programid = 0 \<rparr>
           | None \<Rightarrow>
               \<lparr> jd = mjd, mag = m, mag_unc = u, filt = f, limmag = PInf, programid = 0 \<rparr>))"

definition filts :: "(string list \<Rightarrow> string list) \<Rightarrow> args \<Rightarrow> string list \<Rightarrow> string list" where
  "filts so a l =
     (case photometry_augmentation_filters a of
        None \<Rightarrow> l
      | Some aug \<Rightarrow> (if aug \<noteq> [] then so (l @ split_comma aug) else l))"

text \<open>Whether the loop of line 515 writes the rows of a filter, or goes on to the next.\<close>

definition written ::
  "(string list \<Rightarrow> string list) \<Rightarrow> args \<Rightarrow> string list option \<Rightarrow> string \<Rightarrow> bool" where
  "written so a fs f =
     (case fs of
        None \<Rightarrow> True
      | Some l \<Rightarrow> (if l = [] then True else f \<in> set (filts so a l)))"

definition data_out ::
  "(string list \<Rightarrow> string list) \<Rightarrow> args \<Rightarrow> string list option \<Rightarrow> (string \<rightharpoonup> flt)
     \<Rightarrow> dataset \<Rightarrow> table_row list" where
  "data_out so a fs dl data =
     concat (map (\<lambda>(f, rows). if written so a fs f then map (table_row_of dl f) rows else [])
                 data)"

definition injection_table ::
  "(string \<Rightarrow> flt option) \<Rightarrow> (string list \<Rightarrow> string list) \<Rightarrow> args \<Rightarrow> dataset
     \<Rightarrow> py_error + table_row list" where
  "injection_table pf so a data =
     (case filters_var a of
        Inl e \<Rightarrow> Inl e
      | Inr fs \<Rightarrow>
          (case detection_limit pf a fs of
             Inl e \<Rightarrow> Inl e
           | Inr dl \<Rightarrow> Inr (data_out so a fs dl data)))"

text \<open>
  Modelled from the spec: the reader of the six-column table is not part of the
  analysis module. Reading the table back gives, for each filter named in it, the
  points (epoch, magnitude, magnitude uncertainty) of its rows, in the order of the
  rows; the columns \<open>limmag\<close> and \<open>programid\<close> are not part of a point.
\<close>

definition reload :: "table_row list \<Rightarrow> dataset" where
  "reload tbl =
     map (\<lambda>f. (f, map (\<lambda>r. (jd r, mag r, mag_unc r)) (filter (\<lambda>r. filt r = f) tbl)))
         (remdups (map filt tbl))"

text \<open>A synthetic light curve with one limit among its points, as a worked input.\<close>

definition injected_data :: dataset where
  "injected_data =
     [(''g'', [(59000, Fin 20, Fin (1 / 10)), (59001, Fin 23, PInf)]),
      (''r'', [(59000, Fin 21, PInf)])]"

definition injection_args :: args where
  "injection_args = default_args\<lparr>filters := Some ''g, r''\<rparr>"

section \<open>Best fit, goodness of fit and plot (lines 787-1000)\<close>

text \<open>
  The arrays of this part are shared and updated in place, so they live in a store: a
  list of arrays, an array being known by its position in the list. \<open>data\<close> and
  \<open>processed_data\<close> are dicts from filter names to positions of the store.
  \<open>processed_data\<close> is what \<open>dataProcess\<close> returned (epochs relative to the trigger
  time, inside the window); it is a parameter, and it may or may not share arrays with
  \<open>data\<close>. \<open>copy.deepcopy\<close> puts a copy of an array at a new position.
  \<open>samples[:, 0]\<close> is a view, so \<open>t += x\<close> and \<open>t -= x\<close> update the first column of
  the array \<open>samples\<close> stands for, while \<open>t[idx]\<close> with an index array is a new array.
  A position held by a dict is a position of the store.
\<close>

type_synonym store = "row list list"

definition deepcopy :: "store \<Rightarrow> nat \<Rightarrow> store \<times> nat" where
  "deepcopy h a = (h @ [h ! a], length h)"

definition iadd_epochs :: "store \<Rightarrow> nat \<Rightarrow> real \<Rightarrow> store" where
  "iadd_epochs h a x = h[a := map (\<lambda>r. (epoch r + x, magnitude r, uncertainty r)) (h ! a)]"

definition isub_epochs :: "store \<Rightarrow> nat \<Rightarrow> real \<Rightarrow> store" where
  "isub_epochs h a x = h[a := map (\<lambda>r. (epoch r - x, magnitude r, uncertainty r)) (h ! a)]"

text \<open>
  \<open>scipy.interpolate.interp1d(x, y)\<close> with its defaults: linear, the points sorted by
  \<open>x\<close> with a stable sort, \<open>ValueError\<close> when the two arrays differ in length or are
  empty. Calling it raises \<open>ValueError\<close> when an argument lies below the first or above
  the last \<open>x\<close>; otherwise the value at \<open>t\<close> is \<open>slope * (t - x_lo) + y_lo\<close> on the
  first segment whose upper end is not below \<open>t\<close>. The model light curve and the
  posterior sample hold finite numbers.
\<close>

definition interp1d :: "real list \<Rightarrow> real list \<Rightarrow> py_error + (real \<times> real) list" where
  "interp1d x y =
     (if length x \<noteq> length y then Inl ValueError
      else if length x < 1 then Inl ValueError
      else Inr (sort_key fst (zip x y)))"

fun call_linear :: "(real \<times> real) list \<Rightarrow> real \<Rightarrow> real" where
  "call_linear [] t = 0"
| "call_linear [p] t = snd p"
| "call_linear (p # q # rest) t =
     (if t \<le> fst q \<or> rest = [] then (snd q - snd p) / (fst q - fst p) * (t - fst p) + snd p
      else call_linear (q # rest) t)"

definition interp_call :: "(real \<times> real) list \<Rightarrow> real list \<Rightarrow> py_error + real list" where
  "interp_call p ts =
     (if \<exists>t \<in> set ts. t < fst (hd p) \<or> fst (last p) < t then Inl ValueError
      else Inr (map (call_linear p) ts))"

definition np_sum :: "flt list \<Rightarrow> flt" where
  "np_sum xs = foldl fadd (Fin 0) xs"

text \<open>Lines 795 to 800: the time axis of the best fit, shifted when there is a time shift.\<close>

definition bestfit_sample_times :: "(string \<rightharpoonup> real) \<Rightarrow> real list \<Rightarrow> real list" where
  "bestfit_sample_times bestfit_params ts =
     (case bestfit_params ''timeshift'' of
        None \<Rightarrow> ts
      | Some s \<Rightarrow> map (\<lambda>t. t + s) ts)"

text \<open>Lines 827 to 830: \<open>em_syserr\<close> of the best fit, else the budget of the filter.\<close>

definition fetch_err ::
  "(string \<rightharpoonup> real) \<Rightarrow> (string \<rightharpoonup> flt) \<Rightarrow> string \<Rightarrow> py_error + flt" where
  "fetch_err bestfit_params eb f =
     (case bestfit_params ''em_syserr'' of
        Some e \<Rightarrow> Inr (Fin e)
      | None \<Rightarrow> (case eb f of None \<Rightarrow> Inl KeyError | Some e \<Rightarrow> Inr e))"

text \<open>Lines 836 to 838 for the rows of the detections.\<close>

definition chi2_term :: "flt \<Rightarrow> row \<Rightarrow> real \<Rightarrow> flt" where
  "chi2_term err r m =
     fdiv (fsq (fsub (magnitude r) (Fin m))) (fadd (fsq (uncertainty r)) (fsq err))"

text \<open>
  Lines 824 to 843 on the copied and shifted rows of one filter: \<open>None\<close> when the
  filter has no detection, else its chi-square and its number of detections.
\<close>

definition chi2_rows ::
  "(string \<rightharpoonup> real) \<Rightarrow> (string \<rightharpoonup> flt) \<Rightarrow> (real \<times> real) list \<Rightarrow> string \<Rightarrow> row list
     \<Rightarrow> py_error + (flt \<times> nat) option" where
  "chi2_rows bestfit_params eb interp f samples =
     (let finite_idx = np_where (map (\<lambda>r. isfinite (uncertainty r)) samples)
      in if length finite_idx > 0 then
           (case fetch_err bestfit_params eb f of
              Inl e \<Rightarrow> Inl e
            | Inr err \<Rightarrow>
                (let det = take_rows samples finite_idx
                 in case interp_call interp (map epoch det) of
                      Inl e \<Rightarrow> Inl e
                    | Inr ms \<Rightarrow>
                        Inr (Some (np_sum (map (\<lambda>(r, m). chi2_term err r m) (zip det ms)),
                                   length finite_idx))))
         else Inr None)"

text \<open>The body of the loop of line 813 for one filter, lines 815 to 823 and then the rest.\<close>

definition chi2_filter ::
  "(string \<rightharpoonup> real) \<Rightarrow> real list \<Rightarrow> (string \<rightharpoonup> real list) \<Rightarrow> (string \<rightharpoonup> nat)
     \<Rightarrow> (string \<rightharpoonup> flt) \<Rightarrow> store \<Rightarrow> string \<Rightarrow> py_error + (store \<times> (flt \<times> nat) option)" where
  "chi2_filter bestfit_params grid mags processed_data eb h f =
     (case mags f of
        None \<Rightarrow> Inl KeyError
      | Some mag_used \<Rightarrow>
          (case interp1d grid mag_used of
             Inl e \<Rightarrow> Inl e
           | Inr interp \<Rightarrow>
               (case processed_data f of
                  None \<Rightarrow> Inl KeyError
                | Some a \<Rightarrow>
                    (let (h1, c) = deepcopy h a;
                         h2 = (case bestfit_params ''timeshift'' of
                                 None \<Rightarrow> h1
                               | Some s \<Rightarrow> iadd_epochs h1 c s)
                     in case chi2_rows bestfit_params eb interp f (h2 ! c) of
                          Inl e \<Rightarrow> Inl e
                        | Inr r \<Rightarrow> Inr (h2, r)))))"

text \<open>
  The loop with its accumulators \<open>chi2\<close>, \<open>dof\<close> and \<open>chi2_per_dof_dict\<close>. \<open>chi2\<close>
  and \<open>dof\<close> start as the Python float 0.0; \<open>dof\<close> stays a Python float, and \<open>chi2\<close>
  becomes a numpy double with the first filter that has a detection. So in
  \<open>chi2 / dof\<close> of line 845 a zero \<open>dof\<close> meets the Python float \<open>chi2\<close>, and the
  division raises \<open>ZeroDivisionError\<close>.
\<close>

fun chi2_loop ::
  "(string \<rightharpoonup> real) \<Rightarrow> real list \<Rightarrow> (string \<rightharpoonup> real list) \<Rightarrow> (string \<rightharpoonup> nat)
     \<Rightarrow> (string \<rightharpoonup> flt) \<Rightarrow> string list \<Rightarrow> store \<times> flt \<times> nat \<times> (string \<rightharpoonup> flt)
     \<Rightarrow> py_error + (store \<times> flt \<times> nat \<times> (string \<rightharpoonup> flt))" where
  "chi2_loop bestfit_params grid mags processed_data eb [] st = Inr st"
| "chi2_loop bestfit_params grid mags processed_data eb (f # rest) (h, chi2, dof, d) =
     (case chi2_filter bestfit_params grid mags processed_data eb h f of
        Inl e \<Rightarrow> Inl e
      | Inr (h', None) \<Rightarrow>
          chi2_loop bestfit_params grid mags processed_data eb rest (h', chi2, dof, d)
      | Inr (h', Some (chi2_per_filt, n)) \<Rightarrow>
          chi2_loop bestfit_params grid mags processed_data eb rest
            (h', fadd chi2 chi2_per_filt, dof + n,
             d(f \<mapsto> fdiv chi2_per_filt (Fin (real n)))))"

definition chi2_per_dof ::
  "(string \<rightharpoonup> real) \<Rightarrow> real list \<Rightarrow> (string \<rightharpoonup> real list) \<Rightarrow> (string \<rightharpoonup> nat)
     \<Rightarrow> (string \<rightharpoonup> flt) \<Rightarrow> string list \<Rightarrow> store
     \<Rightarrow> py_error + (store \<times> flt \<times> (string \<rightharpoonup> flt))" where
  "chi2_per_dof bestfit_params ts mags processed_data eb fta h =
     (case chi2_loop bestfit_params (bestfit_sample_times bestfit_params ts) mags
             processed_data eb fta (h, Fin 0, 0, Map.empty) of
        Inl e \<Rightarrow> Inl e
      | Inr (h', chi2, dof, d) \<Rightarrow>
          if dof = 0 then Inl ZeroDivisionError
          else Inr (h', fdiv chi2 (Fin (real dof)), d))"

text \<open>
  The plot, lines 881 to 911: the filters that get a panel, and the loop over them.
  Of the body of the loop the reading of \<open>data\<close>, the update of the epochs and the
  reading of the error budget are modelled; the calls that draw are taken to return.
\<close>

definition filters_plot :: "store \<Rightarrow> (string \<rightharpoonup> nat) \<Rightarrow> string list \<Rightarrow> string list" where
  "filters_plot h data fta =
     filter (\<lambda>f. case data f of
                    None \<Rightarrow> False
                  | Some a \<Rightarrow>
                      length (np_where (map (\<lambda>r. \<not> isnan (magnitude r)) (h ! a))) \<noteq> 0)
            fta"

fun plot_loop ::
  "(string \<rightharpoonup> nat) \<Rightarrow> (string \<rightharpoonup> flt) \<Rightarrow> real \<Rightarrow> string list \<Rightarrow> store \<Rightarrow> py_error + store" where
  "plot_loop data eb trigger_time [] h = Inr h"
| "plot_loop data eb trigger_time (f # rest) h =
     (case data f of
        None \<Rightarrow> Inl KeyError
      | Some a \<Rightarrow>
          (let h' = isub_epochs h a trigger_time
           in case eb f of
                None \<Rightarrow> Inl KeyError
              | Some e \<Rightarrow> plot_loop data eb trigger_time rest h'))"

definition plot_stage ::
  "(string \<rightharpoonup> nat) \<Rightarrow> (string \<rightharpoonup> flt) \<Rightarrow> real \<Rightarrow> string list \<Rightarrow> store \<Rightarrow> py_error + store" where
  "plot_stage data eb trigger_time fta h =
     plot_loop data eb trigger_time (filters_plot h data fta) h"

text \<open>What the run does to the store after the sampler, lines 770 to 1000.\<close>

definition after_sampling ::
  "args \<Rightarrow> (string \<rightharpoonup> real) \<Rightarrow> real list \<Rightarrow> (string \<rightharpoonup> real list) \<Rightarrow> (string \<rightharpoonup> nat)
     \<Rightarrow> (string \<rightharpoonup> nat) \<Rightarrow> (string \<rightharpoonup> flt) \<Rightarrow> real \<Rightarrow> string list \<Rightarrow> store
     \<Rightarrow> py_error + store" where
  "after_sampling a bestfit_params ts mags data processed_data eb trigger_time fta h =
     (if bestfit a \<or> plot a then
        (case chi2_per_dof bestfit_params ts mags processed_data eb fta h of
           Inl e \<Rightarrow> Inl e
         | Inr (h1, c, d) \<Rightarrow>
             if plot a then plot_stage data eb trigger_time fta h1 else Inr h1)
      else Inr h)"

text \<open>Detections of an array, and the array of a filter of \<open>data\<close> in a store.\<close>

definition detections :: "row list \<Rightarrow> row list" where
  "detections rows = filter (\<lambda>r. isfinite (uncertainty r)) rows"

text \<open>
  A run that plots: one filter with one detection half a day after the trigger time
  59000. Position 0 of the store is the array of \<open>data\<close>, position 1 the array of
  \<open>processed_data\<close>.
\<close>

definition plot_args :: args where
  "plot_args = default_args\<lparr>plot := True\<rparr>"

definition one_point_store :: store where
  "one_point_store = [[(590005 / 10, Fin 20, Fin (1 / 10))], [(1 / 2, Fin 20, Fin (1 / 10))]]"





text \<open>
  What the loop gets from one filter on the store it starts from, and the list of what
  it gets from the filters that have a detection: their chi-squares and their numbers
  of detections.
\<close>

definition per_filter ::
  "(string \<rightharpoonup> real) \<Rightarrow> real list \<Rightarrow> (string \<rightharpoonup> real list) \<Rightarrow> (string \<rightharpoonup> nat)
     \<Rightarrow> (string \<rightharpoonup> flt) \<Rightarrow> store \<Rightarrow> string \<Rightarrow> py_error + (flt \<times> nat) option" where
  "per_filter bestfit_params grid mags processed_data eb h f =
     map_sum id snd (chi2_filter bestfit_params grid mags processed_data eb h f)"

definition contributions ::
  "(string \<rightharpoonup> real) \<Rightarrow> real list \<Rightarrow> (string \<rightharpoonup> real list) \<Rightarrow> (string \<rightharpoonup> nat)
     \<Rightarrow> (string \<rightharpoonup> flt) \<Rightarrow> store \<Rightarrow> string list \<Rightarrow> (flt \<times> nat) list" where
  "contributions bestfit_params grid mags processed_data eb h fta =
     concat (map (\<lambda>f. case per_filter bestfit_params grid mags processed_data eb h f of
                         Inr (Some r) \<Rightarrow> [r]
                       | _ \<Rightarrow> [])
                 fta)"

text \<open>
  Processed data of two filters with a detection each and one limit, processed data
  with a limit only, and the light curve through (0, 0) and (1, 1) for both filters.
\<close>

definition two_filter_store :: store where
  "two_filter_store =
     [[(1 / 2, Fin (3 / 2), Fin 1)], [(1 / 2, Fin (5 / 2), Fin 1), (3 / 4, Fin 3, PInf)]]"

definition limits_store :: store where
  "limits_store = [[(1 / 2, Fin 3, PInf)]]"

definition ramp_mags :: "string \<rightharpoonup> real list" where
  "ramp_mags = [''g'' \<mapsto> [0, 1], ''r'' \<mapsto> [0, 1]]"

definition two_filter_processed :: "string \<rightharpoonup> nat" where
  "two_filter_processed = [''g'' \<mapsto> 0, ''r'' \<mapsto> 1]"

definition unit_budget :: "string \<rightharpoonup> flt" where
  "unit_budget = [''g'' \<mapsto> Fin 1, ''r'' \<mapsto> Fin 1]"

section \<open>Properties\<close>

subsection \<open>The monad of runs\<close>

lemma bind_run_raise [simp]: "bind_run (tr, Inl e) f = (tr, Inl e)"
  by (simp add: bind_run_def)

lemma bind_run_ret [simp]: "bind_run (tr, Inr x) f = (tr @ fst (f x), snd (f x))"
  by (simp add: bind_run_def split: prod.splits)

lemma emit_eq [simp]: "emit ev = ([ev], Inr ())"
  by (simp add: emit_def)

lemma ret_eq [simp]: "ret x = ([], Inr x)"
  by (simp add: ret_def)

lemma raise_eq [simp]: "raise e = ([], Inl e)"
  by (simp add: raise_def)

lemma lift_eq [simp]: "lift r = ([], r)"
  by (simp add: lift_def)

lemma sampler_called_simps [simp]:
  "sampler_called [] = False"
  "sampler_called (Print s # tr) = sampler_called tr"
  "sampler_called (PrintFilters fs # tr) = sampler_called tr"
  "sampler_called (PrintKwargs # tr) = sampler_called tr"
  "sampler_called (RunSampler b n # tr) = True"
  by (simp_all add: sampler_called_def)

lemma sampler_called_append [simp]:
  "sampler_called (tr @ tr') = (sampler_called tr \<or> sampler_called tr')"
  by (auto simp: sampler_called_def)

subsection \<open>Output directory too long for pymultinest\<close>

text \<open>
  Claim C9. With the pymultinest sampler and an output directory name of more than
  64 characters the run prints its diagnostic and stops before anything else
  happens, in particular before the sampler is called; it stops through \<open>exit()\<close>,
  and the process status of that is 0, not the non-zero status of a fatal error.
\<close>

theorem long_outdir_exits_with_status_zero:
  assumes "sampler a = ''pymultinest''" and "64 < length (outdir a)"
  shows "analysis_front lm pf so a loaded =
           ([Print ''WARNING: output directory name is too long, it should not be longer than 64 characters''],
            Inl (SystemExit None))
         \<and> exit_status (SystemExit None) = 0
         \<and> \<not> sampler_called (fst (analysis_front lm pf so a loaded))"
  using assms by (simp add: analysis_front_def check_outdir_def)

theorem long_outdir_exits_with_status_zero_witness:
  "sampler (default_args\<lparr>outdir := replicate 65 CHR ''x''\<rparr>) = ''pymultinest''
   \<and> 64 < length (outdir (default_args\<lparr>outdir := replicate 65 CHR ''x''\<rparr>))
   \<and> snd (analysis_front correct_libm (\<lambda>s. None) id (default_args\<lparr>outdir := replicate 65 CHR ''x''\<rparr>) [])
       = Inl (SystemExit None)
   \<and> exit_status (SystemExit None) = 0"
proof -
  have s: "sampler (default_args\<lparr>outdir := replicate 65 CHR ''x''\<rparr>) = ''pymultinest''"
    by (simp add: default_args_def)
  have l: "64 < length (outdir (default_args\<lparr>outdir := replicate 65 CHR ''x''\<rparr>))"
    by simp
  show ?thesis
    using s l long_outdir_exits_with_status_zero [OF s l, of correct_libm "\<lambda>s. None" id "[]"] by simp
qed

subsection \<open>Reactive sampling with another sampler than ultranest\<close>

text \<open>
  Claim C2. When reactive sampling is requested and the sampler is not ultranest,
  lines 686-716 print the notice and leave \<open>nlive\<close> unassigned; evaluating the
  arguments of \<open>bilby.run_sampler\<close> then raises \<open>UnboundLocalError\<close>, so the sampler
  is never called and no fixed live-point count is passed to it.
\<close>

theorem reactive_without_ultranest_raises:
  assumes "reactive_sampling a" and "sampler a \<noteq> ''ultranest''"
  shows "fst (run_sampler a) =
           Print ''Reactive sampling is only available in ultranest'' #
           (if skip_sampling a
            then [Print ''Sampling for 1 iteration and plotting checkpointed results.'']
            else [])
         \<and> snd (run_sampler a) = Inl UnboundLocalError
         \<and> \<not> sampler_called (fst (run_sampler a))"
  using assms by (simp add: run_sampler_def select_nlive_def read_local_def)

theorem reactive_without_ultranest_raises_witness:
  "reactive_sampling (default_args\<lparr>sampler := ''dynesty'', reactive_sampling := True\<rparr>)
   \<and> sampler (default_args\<lparr>sampler := ''dynesty'', reactive_sampling := True\<rparr>) \<noteq> ''ultranest''
   \<and> run_sampler (default_args\<lparr>sampler := ''dynesty'', reactive_sampling := True\<rparr>)
       = ([Print ''Reactive sampling is only available in ultranest''], Inl UnboundLocalError)"
proof -
  have r: "reactive_sampling (default_args\<lparr>sampler := ''dynesty'', reactive_sampling := True\<rparr>)"
    by simp
  have s: "sampler (default_args\<lparr>sampler := ''dynesty'', reactive_sampling := True\<rparr>) \<noteq> ''ultranest''"
    by simp
  have k: "\<not> skip_sampling (default_args\<lparr>sampler := ''dynesty'', reactive_sampling := True\<rparr>)"
    by (simp add: default_args_def)
  show ?thesis
    using r s k reactive_without_ultranest_raises [OF r s]
    by (cases "run_sampler (default_args\<lparr>sampler := ''dynesty'', reactive_sampling := True\<rparr>)") simp
qed

subsection \<open>Validation of the loaded light curves\<close>

lemma np_where_map: "np_where (map P xs) = [i \<leftarrow> [0 ..< length xs]. P (xs ! i)]"
  unfolding np_where_def by (rule filter_cong) simp_all

lemma np_where_nonempty: "(0 < length (np_where (map P xs))) = (\<exists>x \<in> set xs. P x)"
proof -
  have "(np_where (map P xs) \<noteq> []) = (\<exists>i < length xs. P (xs ! i))"
    by (auto simp: np_where_map filter_empty_conv)
  also have "\<dots> = (\<exists>x \<in> set xs. P x)"
    by (metis in_set_conv_nth)
  finally show ?thesis by simp
qed

lemma np_where_empty: "(np_where (map P xs) = []) = (\<forall>x \<in> set xs. \<not> P x)"
  using np_where_nonempty [of P xs] by auto

lemma take_rows_np_where: "take_rows xs (np_where (map P xs)) = filter P xs"
proof -
  have "filter P xs = filter P (map ((!) xs) [0 ..< length xs])"
    by (simp add: map_nth)
  also have "\<dots> = map ((!) xs) (filter (P \<circ> (!) xs) [0 ..< length xs])"
    by (simp only: filter_map)
  finally show ?thesis
    by (simp add: take_rows_def np_where_map comp_def)
qed

text \<open>
  On a dataset whose filters each hold a point the loop of the check does not raise, and
  its flags say whether a finite uncertainty and a finite magnitude have been seen.
\<close>

lemma check_loop_flags:
  assumes "every_filter_has_a_point data"
  shows "\<exists>d' n'. check_loop d n data = Inr (d', n')
           \<and> (d' \<and> n') = ((d \<or> has_detection data) \<and> (n \<or> has_finite_mag data))"
  using assms
proof (induction data arbitrary: d n)
  case Nil
  show ?case by (simp add: has_detection_def has_finite_mag_def)
next
  case (Cons fr rest)
  obtain f rows where fr: "fr = (f, rows)" by (cases fr)
  from Cons.prems fr have ne: "rows \<noteq> []" and rest: "every_filter_has_a_point rest"
    by (auto simp: every_filter_has_a_point_def)
  have D: "has_detection (fr # rest) =
             ((\<exists>r \<in> set rows. isfinite (uncertainty r)) \<or> has_detection rest)"
    by (simp add: has_detection_def fr)
  have N: "has_finite_mag (fr # rest) =
             ((\<exists>r \<in> set rows. isfinite (magnitude r)) \<or> has_finite_mag rest)"
    by (simp add: has_finite_mag_def fr)
  let ?d = "(\<exists>r \<in> set rows. isfinite (uncertainty r)) \<or> d"
  let ?n = "(\<exists>r \<in> set rows. isfinite (magnitude r)) \<or> n"
  have step: "check_loop d n (fr # rest)
                = (if ?d \<and> ?n then Inr (?d, ?n) else check_loop ?d ?n rest)"
    using ne by (auto simp: fr Let_def np_where_empty)
  show ?case
  proof (cases "?d \<and> ?n")
    case True
    then show ?thesis
      unfolding step D N by auto
  next
    case False
    from Cons.IH [OF rest, of ?d ?n]
    obtain d' n' where r: "check_loop ?d ?n rest = Inr (d', n')"
      "(d' \<and> n') = ((?d \<or> has_detection rest) \<and> (?n \<or> has_finite_mag rest))"
      by blast
    from False r show ?thesis
      unfolding step D N by auto
  qed
qed

lemma check_detections_iff:
  assumes "every_filter_has_a_point data"
  shows "(check_detections data = Inl ValueError) = (\<not> has_detection data \<or> \<not> has_finite_mag data)"
    and "check_detections data = Inl ValueError \<or> check_detections data = Inr ()"
proof -
  from check_loop_flags [OF assms, of False False]
  obtain d' n' where r: "check_loop False False data = Inr (d', n')"
    "(d' \<and> n') = (has_detection data \<and> has_finite_mag data)"
    by auto
  from r show "(check_detections data = Inl ValueError)
                 = (\<not> has_detection data \<or> \<not> has_finite_mag data)"
    by (auto simp: check_detections_def)
  from r show "check_detections data = Inl ValueError \<or> check_detections data = Inr ()"
    by (auto simp: check_detections_def)
qed

text \<open>
  The removal of non-detections does not raise on such a dataset either. It keeps the
  detections, leaves no filter without rows and adds no row.
\<close>

lemma remove_nondet_ok:
  assumes "every_filter_has_a_point data"
  shows "\<exists>d. remove_nondet data = Inr d \<and> every_filter_has_a_point d
           \<and> has_detection d = has_detection data
           \<and> (\<forall>fr \<in> set d. \<forall>r \<in> set (snd fr). \<exists>fr' \<in> set data. r \<in> set (snd fr'))"
  using assms
proof (induction data)
  case Nil
  show ?case by (simp add: every_filter_has_a_point_def has_detection_def)
next
  case (Cons fr rest)
  obtain f rows where fr: "fr = (f, rows)" by (cases fr)
  from Cons.prems fr have ne: "rows \<noteq> []" and rest: "every_filter_has_a_point rest"
    by (auto simp: every_filter_has_a_point_def)
  from Cons.IH [OF rest] obtain d where d: "remove_nondet rest = Inr d"
    "every_filter_has_a_point d" "has_detection d = has_detection rest"
    "\<forall>fr \<in> set d. \<forall>r \<in> set (snd fr). \<exists>fr' \<in> set rest. r \<in> set (snd fr')"
    by blast
  let ?P = "\<lambda>r. isfinite (uncertainty r)"
  show ?case
  proof (cases "\<exists>r \<in> set rows. ?P r")
    case True
    then have k: "filter ?P rows \<noteq> []"
      by (simp add: filter_empty_conv)
    have r: "remove_nondet (fr # rest) = Inr ((f, filter ?P rows) # d)"
      using ne True d(1) by (auto simp: fr Let_def np_where_empty take_rows_np_where)
    have e: "every_filter_has_a_point ((f, filter ?P rows) # d)"
      using k d(2) by (simp add: every_filter_has_a_point_def)
    have h: "has_detection ((f, filter ?P rows) # d) = has_detection (fr # rest)"
      using True d(3) by (auto simp: has_detection_def fr)
    have m: "\<forall>fr' \<in> set ((f, filter ?P rows) # d). \<forall>r \<in> set (snd fr').
               \<exists>fr'' \<in> set (fr # rest). r \<in> set (snd fr'')"
      using d(4) by (auto simp: fr)
    from r e h m show ?thesis by blast
  next
    case False
    have r: "remove_nondet (fr # rest) = Inr d"
      using ne False d(1) by (auto simp: fr Let_def np_where_empty)
    have h: "has_detection d = has_detection (fr # rest)"
      using False d(3) by (auto simp: has_detection_def fr)
    have m: "\<forall>fr' \<in> set d. \<forall>r \<in> set (snd fr'). \<exists>fr'' \<in> set (fr # rest). r \<in> set (snd fr'')"
      using d(4) by auto
    from r d(2) h m show ?thesis by blast
  qed
qed

lemma after_removal_ok:
  assumes "every_filter_has_a_point loaded" "magnitudes_real_or_nan loaded"
  shows "\<exists>data. after_removal a loaded = Inr data \<and> every_filter_has_a_point data
           \<and> magnitudes_real_or_nan data \<and> has_detection data = has_detection loaded"
proof (cases "remove_nondetections a")
  case False
  with assms show ?thesis by (simp add: after_removal_def)
next
  case True
  from remove_nondet_ok [OF assms(1)] obtain d where d: "remove_nondet loaded = Inr d"
    "every_filter_has_a_point d" "has_detection d = has_detection loaded"
    "\<forall>fr \<in> set d. \<forall>r \<in> set (snd fr). \<exists>fr' \<in> set loaded. r \<in> set (snd fr')"
    by blast
  have "magnitudes_real_or_nan d"
    unfolding magnitudes_real_or_nan_def
  proof (intro ballI)
    fix fr r assume "fr \<in> set d" "r \<in> set (snd fr)"
    with d(4) obtain fr' where "fr' \<in> set loaded" "r \<in> set (snd fr')" by blast
    with assms(2) show "magnitude r \<noteq> PInf \<and> magnitude r \<noteq> NInf"
      by (auto simp: magnitudes_real_or_nan_def)
  qed
  with True d show ?thesis by (simp add: after_removal_def)
qed

text \<open>A magnitude that is a real number or \<open>nan\<close> is finite exactly when it is not \<open>nan\<close>.\<close>

lemma finite_iff_not_nan:
  assumes "magnitudes_real_or_nan data"
  shows "has_finite_mag data = has_non_nan_mag data"
proof -
  have "isfinite (magnitude r) = (\<not> isnan (magnitude r))"
    if "fr \<in> set data" "r \<in> set (snd fr)" for fr r
    using assms that by (cases "magnitude r") (auto simp: magnitudes_real_or_nan_def)
  then show ?thesis
    by (auto simp: has_finite_mag_def has_non_nan_mag_def)
qed

lemma all_nondetections_no_detection: "all_nondetections data \<Longrightarrow> \<not> has_detection data"
  by (auto simp: all_nondetections_def has_detection_def)

lemma check_outdir_no_sampler: "\<not> sampler_called (fst (check_outdir a))"
  by (simp add: check_outdir_def)

lemma validate_raises_stops_run:
  assumes "validate a loaded = Inl err"
  shows "(\<exists>e. snd (analysis_front lm pf so a loaded) = Inl e)
         \<and> \<not> sampler_called (fst (analysis_front lm pf so a loaded))"
proof (cases "check_outdir a")
  case (Pair tr r)
  have tr: "\<not> sampler_called tr"
    using check_outdir_no_sampler [of a] Pair by simp
  show ?thesis
  proof (cases r)
    case (Inl e)
    with Pair tr show ?thesis by (simp add: analysis_front_def)
  next
    case (Inr u)
    show ?thesis
    proof (cases "sample_times lm a")
      case (Inl e)
      with Pair Inr tr show ?thesis by (simp add: analysis_front_def)
    next
      case grid: (Inr g)
      with Pair Inr tr assms show ?thesis by (simp add: analysis_front_def)
    qed
  qed
qed

text \<open>
  Claim C4.  For a loaded dataset of the data model (every filter holds a point, every
  magnitude is a real number or \<^verbatim>\<open>nan\<close>), the optional removal of non-detections
  returns, and on the data it leaves the validation raises \<^verbatim>\<open>ValueError\<close>
  (\<^verbatim>\<open>Need at least one detection to do fitting.\<close>) exactly when no filter holds a
  point with finite uncertainty or no filter holds a magnitude that is not
  \<^verbatim>\<open>nan\<close>.  Otherwise it passes and keeps the data; a finite uncertainty in one
  filter and a magnitude in another are enough.  A dataset of non-detections only
  raises, and a run that raises here ends without calling the sampler.
\<close>

theorem validation_raises_iff_no_usable_point:
  assumes "every_filter_has_a_point loaded" and "magnitudes_real_or_nan loaded"
  shows "\<exists>data. after_removal a loaded = Inr data
      \<and> ((validate a loaded = Inl ValueError) =
            (\<not> has_detection data \<or> \<not> has_non_nan_mag data))
      \<and> (validate a loaded = Inl ValueError \<or> validate a loaded = Inr data)
      \<and> (has_detection data \<and> has_non_nan_mag data \<longrightarrow> validate a loaded = Inr data)
      \<and> (all_nondetections loaded \<longrightarrow> validate a loaded = Inl ValueError)
      \<and> (validate a loaded = Inl ValueError \<longrightarrow>
           (\<exists>e. snd (analysis_front lm pf so a loaded) = Inl e)
           \<and> \<not> sampler_called (fst (analysis_front lm pf so a loaded)))"
proof -
  from after_removal_ok [OF assms, of a] obtain data where
    data: "after_removal a loaded = Inr data" "every_filter_has_a_point data"
      "magnitudes_real_or_nan data" "has_detection data = has_detection loaded"
    by blast
  have v: "validate a loaded
             = (case check_detections data of Inl e \<Rightarrow> Inl e | Inr u \<Rightarrow> Inr data)"
    using data(1) by (simp add: validate_def)
  note c = check_detections_iff [OF data(2)]
  note n = finite_iff_not_nan [OF data(3)]
  have iff: "(validate a loaded = Inl ValueError)
               = (\<not> has_detection data \<or> \<not> has_non_nan_mag data)"
    using c n by (auto simp: v split: sum.splits)
  have cases: "validate a loaded = Inl ValueError \<or> validate a loaded = Inr data"
    using c(2) by (auto simp: v)
  have pass: "has_detection data \<and> has_non_nan_mag data \<longrightarrow> validate a loaded = Inr data"
    using iff cases by blast
  have nd: "all_nondetections loaded \<longrightarrow> validate a loaded = Inl ValueError"
    using iff data(4) by (auto dest: all_nondetections_no_detection)
  from data(1) iff cases pass nd validate_raises_stops_run [of a loaded ValueError lm pf so]
  show ?thesis by blast
qed

text \<open>
  Three runs.  Limits only: the validation raises and the sampler is not called.  A
  detection without magnitude in \<^verbatim>\<open>g\<close> and a limit with its magnitude in
  \<^verbatim>\<open>r\<close>: the validation passes.  The same table with the removal of
  non-detections: the filter \<^verbatim>\<open>r\<close> is deleted, no magnitude is left, and the
  validation raises.
\<close>

theorem validation_raises_iff_no_usable_point_witness:
  "every_filter_has_a_point only_limits_data \<and> magnitudes_real_or_nan only_limits_data
   \<and> all_nondetections only_limits_data
   \<and> validate default_args only_limits_data = Inl ValueError
   \<and> \<not> sampler_called (fst (analysis_front correct_libm (\<lambda>s. None) id default_args only_limits_data))
   \<and> every_filter_has_a_point mixed_data \<and> magnitudes_real_or_nan mixed_data
   \<and> has_detection mixed_data \<and> has_non_nan_mag mixed_data
   \<and> validate default_args mixed_data = Inr mixed_data
   \<and> after_removal (default_args\<lparr>remove_nondetections := True\<rparr>) mixed_data
       = Inr [(''g'', [(59000, NaN, Fin (1 / 10))])]
   \<and> validate (default_args\<lparr>remove_nondetections := True\<rparr>) mixed_data = Inl ValueError"
proof -
  have l: "every_filter_has_a_point only_limits_data" "magnitudes_real_or_nan only_limits_data"
      "all_nondetections only_limits_data"
    by (simp_all add: every_filter_has_a_point_def magnitudes_real_or_nan_def
          all_nondetections_def only_limits_data_def uncertainty_def magnitude_def)
  have m: "every_filter_has_a_point mixed_data" "magnitudes_real_or_nan mixed_data"
      "has_detection mixed_data" "has_non_nan_mag mixed_data"
    by (simp_all add: every_filter_has_a_point_def magnitudes_real_or_nan_def
          has_detection_def has_non_nan_mag_def mixed_data_def uncertainty_def magnitude_def)
  have a0: "after_removal default_args mixed_data = Inr mixed_data"
    by (simp add: after_removal_def default_args_def)
  have a1: "after_removal (default_args\<lparr>remove_nondetections := True\<rparr>) mixed_data
              = Inr [(''g'', [(59000, NaN, Fin (1 / 10))])]"
    by (simp add: after_removal_def mixed_data_def np_where_def take_rows_def uncertainty_def
          Let_def)
  have n1: "\<not> has_non_nan_mag [(''g'', [(59000, NaN, Fin (1 / 10))])]"
    by (simp add: has_non_nan_mag_def magnitude_def)
  from validation_raises_iff_no_usable_point [OF l(1,2), of default_args correct_libm "\<lambda>s. None" id] l(3)
  have r1: "validate default_args only_limits_data = Inl ValueError
            \<and> \<not> sampler_called (fst (analysis_front correct_libm (\<lambda>s. None) id default_args only_limits_data))"
    by blast
  from validation_raises_iff_no_usable_point [OF m(1,2), of default_args correct_libm "\<lambda>s. None" id] a0 m(3,4)
  have r2: "validate default_args mixed_data = Inr mixed_data"
    by auto
  from validation_raises_iff_no_usable_point
         [OF m(1,2), of "default_args\<lparr>remove_nondetections := True\<rparr>" correct_libm
            "\<lambda>s. None" id] a1 n1
  have r3: "validate (default_args\<lparr>remove_nondetections := True\<rparr>) mixed_data = Inl ValueError"
    by auto
  from l m a1 r1 r2 r3 show ?thesis by simp
qed

text \<open>
  Outside the data model: a filter without rows that the loop reaches raises
  \<^verbatim>\<open>IndexError\<close>, at line 602 or, with the removal of non-detections, at line
  593; after the \<^verbatim>\<open>break\<close> of line 609 the loop does not reach it.
\<close>

lemma filter_without_rows_raises:
  "validate default_args empty_filter_data = Inl IndexError
   \<and> validate (default_args\<lparr>remove_nondetections := True\<rparr>) empty_filter_data = Inl IndexError
   \<and> validate default_args (rev empty_filter_data) = Inr (rev empty_filter_data)
   \<and> validate (default_args\<lparr>remove_nondetections := True\<rparr>) (rev empty_filter_data)
       = Inl IndexError"
  by (simp add: validate_def after_removal_def check_detections_def default_args_def
        empty_filter_data_def np_where_def take_rows_def uncertainty_def magnitude_def Let_def)

subsection \<open>The time grid\<close>

text \<open>Rounding to an integer: integers stay, and a value near an integer goes to it.\<close>

lemma rne_of_int [simp]: "rne (of_int j) = j"
  by (simp add: rne_def)

lemma rne_numeral [simp]: "rne (numeral n) = numeral n"
  using rne_of_int [of "numeral n"] by simp

lemma rne_0 [simp]: "rne 0 = 0"
  using rne_of_int [of 0] by simp

lemma rne_1 [simp]: "rne 1 = 1"
  using rne_of_int [of 1] by simp

lemma rne_frac:
  assumes "of_int f \<le> y" "y < of_int f + 1 / 2"
  shows "rne y = f"
proof -
  have "\<lfloor>y\<rfloor> = f" using assms by linarith
  with assms show ?thesis by (simp add: rne_def)
qed

lemma rne_near:
  assumes "\<bar>y - of_int f\<bar> < 1 / 2"
  shows "rne y = f"
proof (cases "of_int f \<le> y")
  case True
  with assms show ?thesis by (intro rne_frac) auto
next
  case False
  with assms have "\<lfloor>y\<rfloor> = f - 1" by linarith
  with assms False show ?thesis by (simp add: rne_def)
qed


text \<open>
  The exponent: \<open>expo x\<close> is the integer part of the binary logarithm of a positive
  \<open>x\<close>, so that rounding is what its description with logarithms says.
\<close>

lemma floor_log2_ge1:
  assumes "1 \<le> x"
  shows "\<lfloor>log 2 x\<rfloor> = bitlen \<lfloor>x\<rfloor> - 1" and "0 \<le> bitlen \<lfloor>x\<rfloor> - 1"
proof -
  let ?n = "\<lfloor>x\<rfloor>"
  have n: "1 \<le> ?n" using assms by linarith
  define k where "k = \<lfloor>log 2 (of_int ?n)\<rfloor>"
  have b: "bitlen ?n = k + 1"
    using n by (simp add: bitlen_alt_def k_def)
  have "0 \<le> log 2 (of_int ?n)"
    using n by simp
  then have k0: "0 \<le> k"
    by (simp add: k_def)
  have "(2::real) powr of_int k \<le> of_int ?n \<and> of_int ?n < (2::real) powr of_int (k + 1)"
    using n floor_log_eq_powr_iff [of "of_int ?n" 2 k] by (simp add: k_def)
  then have A: "(2::real) powr of_int k \<le> of_int ?n"
    and B: "of_int ?n < (2::real) powr of_int (k + 1)"
    by blast+
  have pk: "(2::real) powr of_int k = 2 ^ nat k"
    using k0 by (simp add: powr_real_of_int)
  have pk1: "(2::real) powr of_int (k + 1) = 2 ^ nat (k + 1)"
    using k0 pk by (simp add: powr_add nat_add_distrib)
  have lo: "(2::real) ^ nat k \<le> of_int ?n"
    using A unfolding pk .
  have hi: "of_int ?n < (2::real) ^ nat (k + 1)"
    using B unfolding pk1 .
  from hi have "?n < 2 ^ nat (k + 1)"
    by (metis of_int_less_iff of_int_numeral of_int_power)
  then have "?n + 1 \<le> 2 ^ nat (k + 1)"
    by simp
  then have "of_int (?n + 1) \<le> (of_int (2 ^ nat (k + 1)) :: real)"
    by (simp only: of_int_le_iff)
  then have hi': "x < 2 ^ nat (k + 1)"
    by (simp add: ) linarith
  have lo': "2 ^ nat k \<le> x"
    using lo by linarith
  have "(2::real) powr of_int k \<le> x" "x < (2::real) powr of_int (k + 1)"
    unfolding pk pk1 using lo' hi' by simp_all
  then have "\<lfloor>log 2 x\<rfloor> = k"
    using assms floor_log_eq_powr_iff [of x 2 k] by simp
  with b show "\<lfloor>log 2 x\<rfloor> = bitlen \<lfloor>x\<rfloor> - 1" by simp
  from b k0 show "0 \<le> bitlen \<lfloor>x\<rfloor> - 1" by simp
qed

lemma expo_eq:
  assumes "0 < x"
  shows "expo x = \<lfloor>log 2 x\<rfloor>"
proof (cases "1 \<le> x")
  case True
  then show ?thesis by (simp add: expo_def floor_log2_ge1)
next
  case False
  let ?y = "1 / x"
  have y: "1 \<le> ?y" using assms False by simp
  define j where "j = bitlen \<lfloor>?y\<rfloor> - 1"
  have j: "\<lfloor>log 2 ?y\<rfloor> = j" "0 \<le> j"
    using floor_log2_ge1 [OF y] by (simp_all add: j_def)
  have ypos: "0 < ?y" using assms by simp
  from j(1) have b: "2 powr of_int j \<le> ?y" "?y < 2 powr of_int (j + 1)"
    using floor_log_eq_powr_iff [of ?y 2 j] ypos by simp_all
  have lx: "log 2 x = - log 2 ?y"
    using assms by (simp add: log_divide)
  show ?thesis
  proof (cases "?y = 2 ^ nat j")
    case True
    then have "log 2 ?y = of_int j"
      using j(2) by (simp add: log_nat_power)
    then have "\<lfloor>log 2 x\<rfloor> = - j"
      unfolding lx by simp
    with True False show ?thesis
      by (simp add: expo_def j_def Let_def)
  next
    case ne: False
    have "(2::real) powr of_int j = 2 ^ nat j"
      using j(2) by (simp add: powr_real_of_int)
    with b(1) ne have "2 powr of_int j < ?y"
      by simp
    then have "of_int j < log 2 ?y"
      using ypos by (simp add: less_log_iff)
    moreover have "log 2 ?y < of_int (j + 1)"
      using b(2) ypos by (simp add: log_less_iff)
    ultimately have "\<lfloor>- log 2 ?y\<rfloor> = - j - 1"
      by linarith
    with ne False show ?thesis
      unfolding lx by (simp add: expo_def j_def Let_def)
  qed
qed

lemma rnd_log:
  "rnd x =
     (if x = 0 then 0
      else of_int (rne (x / 2 powr of_int (\<lfloor>log 2 \<bar>x\<bar>\<rfloor> - 52)))
             * 2 powr of_int (\<lfloor>log 2 \<bar>x\<bar>\<rfloor> - 52))"
proof (cases "x = 0")
  case True
  then show ?thesis by (simp add: rnd_def)
next
  case False
  define e where "e = \<lfloor>log 2 \<bar>x\<bar>\<rfloor> - 52"
  have ex: "expo \<bar>x\<bar> - 52 = e"
    using False by (simp add: expo_eq e_def)
  have r: "rnd x = (if 0 \<le> e then of_int (rne (x / 2 ^ nat e)) * 2 ^ nat e
                    else of_int (rne (x * 2 ^ nat (- e))) / 2 ^ nat (- e))"
    using False ex by (simp add: rnd_def Let_def)
  have "rnd x = of_int (rne (x / 2 powr of_int e)) * 2 powr of_int e"
  proof (cases "0 \<le> e")
    case True
    then have "(2::real) powr of_int e = 2 ^ nat e"
      by (simp add: powr_real_of_int)
    with r True show ?thesis
      by simp
  next
    case neg: False
    then have "(2::real) powr of_int e = inverse (2 ^ nat (- e))"
      by (simp add: powr_real_of_int)
    with r neg show ?thesis
      by (simp add: divide_inverse)
  qed
  with False show ?thesis
    by (simp add: e_def)
qed

text \<open>
  Rounding to a double, read off from the power of two that the argument lies above:
  for arguments between \<open>2 ^ k\<close> and \<open>2 ^ (k + 1)\<close> with \<open>k\<close> up to 52 or from 52 on,
  and for arguments between \<open>2 ^ -k\<close> and \<open>2 ^ (1 - k)\<close>.
\<close>

lemma rnd_0 [simp]: "rnd 0 = 0"
  by (simp add: rnd_def)

lemma rnd_binade:
  assumes "2 powr of_int k \<le> \<bar>x\<bar>" "\<bar>x\<bar> < 2 powr of_int (k + 1)"
  shows "rnd x = of_int (rne (x / 2 powr of_int (k - 52))) * 2 powr of_int (k - 52)"
proof -
  have pos: "0 < \<bar>x\<bar>"
    using assms(1) powr_gt_zero [of 2 "of_int k"] by linarith
  have "\<lfloor>log 2 \<bar>x\<bar>\<rfloor> = k"
    using assms pos by (simp add: floor_log_eq_powr_iff)
  with pos show ?thesis
    by (simp add: rnd_log)
qed

lemma rnd_up:
  assumes "2 ^ k \<le> \<bar>x\<bar>" "\<bar>x\<bar> < 2 * 2 ^ k" "k \<le> 52"
  shows "rnd x = of_int (rne (x * 2 ^ (52 - k))) / 2 ^ (52 - k)"
proof -
  have "rnd x = of_int (rne (x / 2 powr of_int (int k - 52))) * 2 powr of_int (int k - 52)"
    by (rule rnd_binade) (use assms in \<open>simp_all add: powr_realpow powr_add\<close>)
  moreover have "2 powr of_int (int k - 52) = 1 / (2::real) ^ (52 - k)"
  proof -
    have "of_int (int k - 52) = - real (52 - k)"
      using assms(3) by simp
    then show ?thesis
      by (simp only: powr_minus powr_realpow) (simp add: field_simps)
  qed
  ultimately show ?thesis by simp
qed


lemma rnd_down:
  assumes "1 \<le> \<bar>x\<bar> * 2 ^ k" "\<bar>x\<bar> * 2 ^ k < 2"
  shows "rnd x = of_int (rne (x * 2 ^ (52 + k))) / 2 ^ (52 + k)"
proof -
  have p: "2 powr of_int (- int k) = 1 / (2::real) ^ k"
    by (simp add: powr_minus powr_realpow field_simps)
  have p1: "2 powr of_int (- int k + 1) = 2 / (2::real) ^ k"
    by (simp add: powr_diff powr_realpow)
  have b1: "2 powr of_int (- int k) \<le> \<bar>x\<bar>"
    unfolding p using assms(1) by (simp add: field_simps)
  have b2: "\<bar>x\<bar> < 2 powr of_int (- int k + 1)"
    unfolding p1 using assms(2) by (simp add: field_simps)
  have "rnd x = of_int (rne (x / 2 powr of_int (- int k - 52))) * 2 powr of_int (- int k - 52)"
    by (rule rnd_binade [OF b1 b2])
  moreover have "2 powr of_int (- int k - 52) = 1 / (2::real) ^ (52 + k)"
  proof -
    have "of_int (- int k - 52) = - real (52 + k)"
      by simp
    then show ?thesis
      by (simp only: powr_minus powr_realpow) (simp add: field_simps)
  qed
  ultimately show ?thesis by simp
qed




text \<open>
  \<open>np.linspace\<close> between two finite ends: the number of entries, the first and the last
  entry, and the entries between them when the step is not zero.
\<close>

lemma length_np_linspace: "length (np_linspace a b n) = n"
  by (simp add: np_linspace_def Let_def)






text \<open>Doubles that occur in the worked inputs, and the lists of the first numbers.\<close>

lemma rnd_small:
  "rnd 1 = 1" "rnd 2 = 2" "rnd 3 = 3" "rnd 8 = 8" "rnd 10 = 10" "rnd 100 = 100"
  "rnd (1 / 2) = 1 / 2" "rnd (3 / 2) = 3 / 2" "rnd (5 / 2) = 5 / 2" "rnd (7 / 2) = 7 / 2"
  by (simp_all add: rnd_up [where k = 0] rnd_up [where k = 1] rnd_up [where k = 3]
        rnd_up [where k = 6] rnd_down [where k = 1])

lemma log10_100: "log 10 100 = 2"
proof -
  have "log 10 (10 powr 2) = 2"
    by (simp only: log_powr_cancel)
  then show ?thesis by simp
qed

lemma upt_small: "[0 ..< 2] = [0, 1]" "[0 ..< 3] = [0, 1, 2]" "[0 ..< 4] = [0, 1, 2, 3]"
  "[0 ..< 8] = [0, 1, 2, 3, 4, 5, 6, 7]"
  by (simp_all add: upt_conv_Cons)

text \<open>The grids of the worked inputs.\<close>

lemma decade_grid: "sample_times correct_libm decade_args = Inr [Fin 1, Fin 10, Fin 100]"
  by (simp add: sample_times_def decade_args_def default_args_def n_step_of_def
        np_logspace_def np_log10_def np_linspace_def correct_libm_def fsub_def Let_def
        rnd_small log10_100 upt_small)

lemma half_step_grid: "sample_times lm half_step_args = Inr [Fin 1, Fin (3 / 2), Fin 2]"
  by (simp add: sample_times_def half_step_args_def default_args_def np_arange_def Let_def
        rnd_small upt_small)



text \<open>
  With \<open>tmin = dt = 0.1\<close> and \<open>tmax = 2.0\<close> the quotient of doubles is
  18.999999999999996 and the count is 18, where the quotient of the real numbers is
  above 18 and its ceiling is 19.
\<close>

lemma tenth_count:
  "n_step_of tenth_args = Inr 18
   \<and> map_sum id length (sample_times lm tenth_args) = Inr 18
   \<and> \<lceil>(tmax tenth_args - tmin tenth_args) / dt tenth_args\<rceil> = 19"
proof -
  have n: "n_step_of tenth_args = Inr 18"
    by (simp add: n_step_of_def tenth_args_def default_args_def py_int_def
          rnd_up [where k = 0] rnd_up [where k = 4]
          rne_near [where f = 8556839292003942] rne_near [where f = 5348024557502463])
  have l: "map_sum id length (sample_times lm tenth_args) = Inr 18"
    using n by (simp add: sample_times_def np_logspace_def length_np_linspace tenth_args_def
                  default_args_def)
  have c: "\<lceil>(tmax tenth_args - tmin tenth_args) / dt tenth_args\<rceil> = 19"
    by (simp add: tenth_args_def default_args_def)
  from n l c show ?thesis by simp
qed


text \<open>
  \<open>np.arange(1.0, 1.2 + 0.1, 0.1)\<close> has four entries, and the last one is above the
  stop value.
\<close>

lemma fifth_grid:
  "sample_times lm fifth_args
     = Inr [Fin 1, Fin (2476979795053773 / 2251799813685248),
            Fin (1351079888211149 / 1125899906842624),
            Fin (2927339757790823 / 2251799813685248)]
   \<and> rnd (tmax fifth_args + dt fifth_args) = 5854679515581645 / 4503599627370496
   \<and> (5854679515581645 / 4503599627370496 :: real) < 2927339757790823 / 2251799813685248"
  by (simp add: sample_times_def fifth_args_def default_args_def np_arange_def Let_def
        upt_small rnd_up [where k = 0] rnd_up [where k = 1] rnd_down [where k = 2]
        rnd_down [where k = 3] rnd_down [where k = 4]
        rne_near [where f = 5854679515581645] rne_near [where f = 4953959590107546]
        rne_near [where f = 6755399441055745])





subsection \<open>The analysed filters\<close>

lemma fold_upd_map_of:
  "fold (\<lambda>kv m. m(fst kv \<mapsto> snd kv)) kvs m0 = m0 ++ map_of (rev kvs)"
proof (induction kvs arbitrary: m0)
  case Nil
  show ?case by simp
next
  case (Cons kv kvs)
  let ?F = "\<lambda>kv m. m(fst kv \<mapsto> snd kv)"
  have h: "m0(fst kv \<mapsto> snd kv) ++ map_of (rev kvs) = m0 ++ (map_of [kv] ++ map_of (rev kvs))"
    by (cases kv) (auto simp: map_add_def fun_eq_iff split: option.splits)
  have "fold ?F (kv # kvs) m0 = fold ?F kvs (m0(fst kv \<mapsto> snd kv))"
    by simp
  also have "\<dots> = m0(fst kv \<mapsto> snd kv) ++ map_of (rev kvs)"
    by (rule Cons.IH)
  also have "\<dots> = m0 ++ (map_of [kv] ++ map_of (rev kvs))"
    by (rule h)
  also have "\<dots> = m0 ++ map_of (rev (kv # kvs))"
    by simp
  finally show ?case .
qed

lemma dict_of_map_of: "dict_of kvs = map_of (rev kvs)"
  by (simp add: dict_of_def fold_upd_map_of)

lemma dom_dict_of: "dom (dict_of kvs) = fst ` set kvs"
  by (simp add: dict_of_map_of dom_map_of_conv_image_fst)

lemma map_of_rev_distinct: "distinct (map fst kvs) \<Longrightarrow> map_of (rev kvs) = map_of kvs"
proof (induction kvs)
  case Nil
  show ?case by simp
next
  case (Cons kv kvs)
  obtain k v where kv: "kv = (k, v)" by (cases kv)
  from Cons.prems have notin: "k \<notin> fst ` set kvs" and d: "distinct (map fst kvs)"
    by (auto simp: kv)
  have "map_of (rev (kv # kvs)) = map_of [kv] ++ map_of (rev kvs)"
    by simp
  also have "\<dots> = map_of [kv] ++ map_of kvs"
    using Cons.IH [OF d] by simp
  also have "\<dots> = (map_of kvs)(k \<mapsto> v)"
  proof (rule ext)
    fix x
    have n: "map_of kvs k = None"
      using notin by (simp add: map_of_eq_None_iff)
    show "(map_of [kv] ++ map_of kvs) x = ((map_of kvs)(k \<mapsto> v)) x"
      using n by (auto simp: kv map_add_def split: option.splits)
  qed
  finally show ?case by (simp add: kv)
qed

lemma dict_of_zip_nth:
  assumes "distinct ks" "i < length ks" "i < length vs"
  shows "dict_of (zip ks vs) (ks ! i) = Some (vs ! i)"
proof -
  let ?n = "min (length ks) (length vs)"
  have z: "zip ks vs = zip (take ?n ks) (take ?n vs)"
    by (metis length_zip take_zip take_all order_refl)
  have d: "distinct (take ?n ks)" using assms(1) by simp
  have l: "length (take ?n ks) = length (take ?n vs)" by simp
  have i: "i < length (take ?n vs)" using assms by simp
  have "distinct (map fst (zip (take ?n ks) (take ?n vs)))"
    using d l by simp
  then have "dict_of (zip ks vs) = map_of (zip (take ?n ks) (take ?n vs))"
    using z by (simp add: dict_of_map_of map_of_rev_distinct)
  moreover have "map_of (zip (take ?n ks) (take ?n vs)) (take ?n ks ! i) = Some (take ?n vs ! i)"
    using l d i by (rule map_of_zip_nth)
  ultimately show ?thesis using assms by simp
qed

lemma values_to_indices_nth:
  "distinct fs \<Longrightarrow> i < length fs \<Longrightarrow> values_to_indices fs (fs ! i) = Some i"
  using dict_of_zip_nth [of fs i "[0 ..< length fs]"] by (simp add: values_to_indices_def)

lemma position_map:
  assumes "distinct fs"
  shows "map (\<lambda>v. the (values_to_indices fs v)) fs = [0 ..< length fs]"
  by (rule nth_equalityI) (simp_all add: values_to_indices_nth [OF assms])

lemma position_inj:
  assumes "distinct fs"
  shows "inj_on (\<lambda>v. the (values_to_indices fs v)) (set fs)"
proof (rule inj_onI)
  fix x y assume x: "x \<in> set fs" and y: "y \<in> set fs"
    and e: "the (values_to_indices fs x) = the (values_to_indices fs y)"
  from x obtain i where i: "i < length fs" "x = fs ! i" by (auto simp: in_set_conv_nth)
  from y obtain j where j: "j < length fs" "y = fs ! j" by (auto simp: in_set_conv_nth)
  from e i j show "x = y" by (simp add: values_to_indices_nth [OF assms])
qed

lemma sort_by_position:
  assumes "distinct fs" "distinct xs" "set xs \<subseteq> set fs"
  shows "sort_key (\<lambda>v. the (values_to_indices fs v)) xs = filter (\<lambda>v. v \<in> set xs) fs"
proof -
  let ?k = "\<lambda>v. the (values_to_indices fs v)"
  let ?l = "sort_key ?k xs" and ?r = "filter (\<lambda>v. v \<in> set xs) fs"
  have inj: "inj_on ?k (set fs)" using assms(1) by (rule position_inj)
  have sl: "set ?l \<subseteq> set fs" and sr: "set ?r \<subseteq> set fs" using assms(3) by auto
  have i: "inj_on ?k (set ?l \<union> set ?r)"
    by (rule inj_on_subset [OF inj]) (use sl sr in blast)
  have s1: "sorted (map ?k ?l)" by (rule sorted_sort_key)
  have d1: "distinct (map ?k ?l)"
    using assms(2) inj_on_subset [OF inj sl] by (simp add: distinct_map)
  have "sorted (map ?k fs)" by (simp add: position_map [OF assms(1)])
  then have s2: "sorted (map ?k ?r)" by (rule sorted_filter)
  have d2: "distinct (map ?k ?r)"
    using assms(1) inj_on_subset [OF inj sr] by (simp add: distinct_map)
  have e: "set ?l = set ?r" using assms(3) by auto
  from i s1 d1 s2 d2 e show ?thesis by (rule map_sorted_distinct_set_unique)
qed

lemma filters_to_analyze_listing:
  assumes "set_order_ok so" "distinct fs"
  shows "sort_key (\<lambda>v. the (values_to_indices fs v)) (so (filter (\<lambda>v. v \<in> set keys) fs))
           = filter (\<lambda>v. v \<in> set keys) fs"
proof -
  let ?xs = "so (filter (\<lambda>v. v \<in> set keys) fs)"
  have d: "distinct ?xs" and s: "set ?xs = set (filter (\<lambda>v. v \<in> set keys) fs)"
    using assms(1) by (simp_all add: set_order_ok_def)
  have "sort_key (\<lambda>v. the (values_to_indices fs v)) ?xs = filter (\<lambda>v. v \<in> set ?xs) fs"
    using assms(2) d s by (intro sort_by_position) auto
  also have "\<dots> = filter (\<lambda>v. v \<in> set keys) fs"
    unfolding s by (rule filter_cong) auto
  finally show ?thesis .
qed

text \<open>
  Without augmentation filters and with no filter requested twice, the analysed
  filters are the requested filters that were loaded, in the requested order.
\<close>

lemma requested_order_kept_without_augmentation:
  assumes "set_order_ok so" "filters a = Some f" "f \<noteq> []"
    and "photometry_augmentation_filters a = None" "distinct (split_comma f)"
  shows "filters_to_analyze so a keys = filter (\<lambda>v. v \<in> set keys) (split_comma f)"
  using assms filters_to_analyze_listing [OF assms(1,5), of keys]
  by (simp add: filters_to_analyze_def filter_list_def Let_def)

text \<open>
  Claim C7. With augmentation filters, line 619 turns the requested and the
  augmentation filters into a set and back into a list before the positions are
  taken (line 628). The analysed filters are then the right set, the requested
  and augmentation filters that were loaded, but they come in the iteration
  order of that set and not in the requested order.
\<close>

theorem augmented_filters_follow_set_order:
  assumes "set_order_ok so" and "filters a = Some f" and "f \<noteq> []"
    and "photometry_augmentation_filters a = Some aug" and "aug \<noteq> []"
  shows "filters_to_analyze so a keys
           = filter (\<lambda>v. v \<in> set keys) (so (split_comma f @ split_comma aug))
         \<and> set (filters_to_analyze so a keys)
           = (set (split_comma f) \<union> set (split_comma aug)) \<inter> set keys"
proof -
  let ?fs = "so (split_comma f @ split_comma aug)"
  have d: "distinct ?fs" and s: "set ?fs = set (split_comma f) \<union> set (split_comma aug)"
    using assms(1) by (simp_all add: set_order_ok_def)
  have e: "filters_to_analyze so a keys = filter (\<lambda>v. v \<in> set keys) ?fs"
    using assms filters_to_analyze_listing [OF assms(1) d, of keys]
    by (simp add: filters_to_analyze_def filter_list_def Let_def)
  from e s show ?thesis by auto
qed

lemma set_order_ok_rev_order: "set_order_ok rev_order"
  by (simp add: set_order_ok_def rev_order_def)

theorem augmented_filters_follow_set_order_witness:
  "set_order_ok rev_order \<and> filters augmented_args = Some ''g,r''
   \<and> photometry_augmentation_filters augmented_args = Some ''i''
   \<and> filters_to_analyze rev_order augmented_args [''g'', ''r'', ''i''] = [''i'', ''r'', ''g'']"
proof -
  have f: "filters augmented_args = Some ''g,r''"
    and p: "photometry_augmentation_filters augmented_args = Some ''i''"
    by (simp_all add: augmented_args_def)
  have "filters_to_analyze rev_order augmented_args [''g'', ''r'', ''i'']
          = filter (\<lambda>v. v \<in> set [''g'', ''r'', ''i''])
              (rev_order (split_comma ''g,r'' @ split_comma ''i''))"
    using augmented_filters_follow_set_order [OF set_order_ok_rev_order f _ p] by simp
  also have "\<dots> = [''i'', ''r'', ''g'']"
    by (simp add: rev_order_def)
  finally show ?thesis using set_order_ok_rev_order f p by simp
qed

subsection \<open>The error budget\<close>

text \<open>
  Lines 613 to 647.  The parsed list has one entry for each comma-separated field of
  the option, and never none.
\<close>

lemma parse_floats_length: "parse_floats pf xs = Inr vs \<Longrightarrow> length vs = length xs"
  by (induction xs arbitrary: vs) (auto split: option.splits sum.splits)

lemma split_comma_nonempty: "split_comma s \<noteq> []"
  by (induction s) (auto split: list.splits)

lemma error_budget_list_nonempty:
  assumes "error_budget_list pf a = Inr eb"
  shows "eb \<noteq> []"
proof (cases "error_budget a")
  case (EBNum x)
  with assms show ?thesis by (auto simp: error_budget_list_def)
next
  case (EBStr s)
  with assms have "length eb = length (split_comma s)"
    by (auto simp: error_budget_list_def dest: parse_floats_length)
  with split_comma_nonempty [of s] show ?thesis by auto
qed

lemma fst_set_zip_longer:
  assumes "length xs \<le> length ys"
  shows "fst ` set (zip xs ys) = set xs"
proof -
  have "map fst (zip xs (take (length xs) ys)) = xs"
    using assms by (simp add: map_fst_zip)
  moreover have "set (zip xs (take (length xs) ys)) = set (zip xs ys)"
    using assms
  proof (induction xs arbitrary: ys)
    case Nil then show ?case by simp
  next
    case (Cons x xs)
    then show ?case by (cases ys) auto
  qed
  ultimately have "set (map fst (zip xs ys)) = set xs"
    by (metis set_map)
  then show ?thesis by (simp only: set_map)
qed

lemma cyclic_budget_dom:
  assumes "eb \<noteq> []"
  shows "dom (dict_of (zip ks (concat (replicate (length ks) eb)))) = set ks"
proof -
  have "length (concat (replicate (length ks) eb)) = length ks * length eb"
    by (induction "length ks" arbitrary: ks) (simp_all add: length_concat sum_list_replicate)
  moreover have "1 \<le> length eb"
    using assms by (cases eb) auto
  ultimately have "length ks \<le> length (concat (replicate (length ks) eb))"
    by simp
  then show ?thesis
    by (simp only: dom_dict_of fst_set_zip_longer)
qed

lemma fst_set_zip_replicate:
  "fst ` set (zip ks (replicate (length ks) x)) = set ks"
proof -
  have "map fst (zip ks (replicate (length ks) x)) = ks"
    by (simp add: map_fst_zip)
  then have "set (map fst (zip ks (replicate (length ks) x))) = set ks"
    by simp
  then show ?thesis
    by (simp only: set_map)
qed

lemma dict_of_zip_replicate:
  "dict_of (zip ks (replicate (length ks) x)) k = (if k \<in> set ks then Some x else None)"
proof (cases "k \<in> set ks")
  case True
  then have "k \<in> dom (dict_of (zip ks (replicate (length ks) x)))"
    by (simp add: dom_dict_of fst_set_zip_replicate)
  then obtain y where y: "dict_of (zip ks (replicate (length ks) x)) k = Some y"
    by blast
  then have "(k, y) \<in> set (rev (zip ks (replicate (length ks) x)))"
    unfolding dict_of_map_of by (rule map_of_SomeD)
  then have "y = x"
    by (auto dest: set_zip_rightD)
  with y True show ?thesis by simp
next
  case False
  then have "k \<notin> dom (dict_of (zip ks (replicate (length ks) x)))"
    by (simp add: dom_dict_of fst_set_zip_replicate)
  with False show ?thesis by (simp add: domIff)
qed

lemma broadcast_budget:
  assumes "length eb = 1"
  shows "dom (dict_of (zip fta (concat (replicate (length fta) eb)))) = set fta
         \<and> (\<forall>f \<in> set fta. dict_of (zip fta (concat (replicate (length fta) eb))) f = Some (hd eb))"
proof -
  from assms obtain x where x: "eb = [x]" by (cases eb) auto
  have c: "concat (replicate (length fta) eb) = replicate (length fta) x"
    unfolding x by (induction "length fta") (simp_all add: replicate_append_same)
  show ?thesis
    unfolding c by (simp add: dom_dict_of dict_of_zip_replicate fst_set_zip_replicate x)
qed

text \<open>
  Claim C3.  A budget of one entry is given to every analysed filter, and the resulting
  dictionary has exactly the analysed filters as keys.  A budget of several entries, when
  a filter list is requested, is accepted exactly when it has as many entries as the
  requested list \<^verbatim>\<open>args.filters.split(",")\<close> has names; it is then
  paired with the requested names in their order, so that the keys of the dictionary are
  the requested filters, and every other length raises \<^verbatim>\<open>ValueError\<close>.
  Without a requested list no length is compared: the resolution returns for every budget,
  with the filters of the data as keys.
\<close>

theorem error_budget_resolution:
  assumes "error_budget_list pf a = Inr eb"
  shows "(\<forall>s. error_budget a = EBStr s \<longrightarrow> length eb = length (split_comma s))
    \<and> (length eb = 1 \<longrightarrow>
         (\<exists>m. resolve pf so a keys = Inr (filters_to_analyze so a keys, m)
              \<and> dom m = set (filters_to_analyze so a keys)
              \<and> (\<forall>f \<in> set (filters_to_analyze so a keys). m f = Some (hd eb))))
    \<and> (length eb \<noteq> 1 \<longrightarrow> filters a = Some fs \<longrightarrow> fs \<noteq> [] \<longrightarrow>
         (length eb = length (split_comma fs) \<longrightarrow>
            (\<exists>m. resolve pf so a keys = Inr (filters_to_analyze so a keys, m)
                 \<and> dom m = set (split_comma fs)
                 \<and> (distinct (split_comma fs) \<longrightarrow>
                      (\<forall>i < length eb. m (split_comma fs ! i) = Some (eb ! i)))))
         \<and> (length eb \<noteq> length (split_comma fs) \<longrightarrow>
              resolve pf so a keys = Inl ValueError))
    \<and> (filters a = None \<longrightarrow>
         (\<exists>m. resolve pf so a keys = Inr (keys, m) \<and> dom m = set keys))"
proof -
  have len: "\<forall>s. error_budget a = EBStr s \<longrightarrow> length eb = length (split_comma s)"
    using assms by (auto simp: error_budget_list_def dest: parse_floats_length)
  have scalar: "length eb = 1 \<longrightarrow>
         (\<exists>m. resolve pf so a keys = Inr (filters_to_analyze so a keys, m)
              \<and> dom m = set (filters_to_analyze so a keys)
              \<and> (\<forall>f \<in> set (filters_to_analyze so a keys). m f = Some (hd eb)))"
  proof
    assume one: "length eb = 1"
    let ?fta = "filters_to_analyze so a keys"
    let ?m = "dict_of (zip ?fta (concat (replicate (length ?fta) eb)))"
    have r: "resolve pf so a keys = Inr (?fta, ?m)"
      using assms one by (simp add: resolve_def Let_def split: option.splits)
    from r broadcast_budget [OF one, of ?fta]
    show "\<exists>m. resolve pf so a keys = Inr (?fta, m) \<and> dom m = set ?fta
              \<and> (\<forall>f \<in> set ?fta. m f = Some (hd eb))"
      by blast
  qed
  have list: "length eb \<noteq> 1 \<longrightarrow> filters a = Some fs \<longrightarrow> fs \<noteq> [] \<longrightarrow>
         (length eb = length (split_comma fs) \<longrightarrow>
            (\<exists>m. resolve pf so a keys = Inr (filters_to_analyze so a keys, m)
                 \<and> dom m = set (split_comma fs)
                 \<and> (distinct (split_comma fs) \<longrightarrow>
                      (\<forall>i < length eb. m (split_comma fs ! i) = Some (eb ! i)))))
         \<and> (length eb \<noteq> length (split_comma fs) \<longrightarrow>
              resolve pf so a keys = Inl ValueError)"
  proof (intro impI conjI)
    assume h: "length eb \<noteq> 1" "filters a = Some fs" "fs \<noteq> []"
    {
      assume e: "length eb = length (split_comma fs)"
      let ?m = "dict_of (zip (split_comma fs) eb)"
      have r: "resolve pf so a keys = Inr (filters_to_analyze so a keys, ?m)"
        using assms h e by (simp add: resolve_def Let_def)
      have d: "dom ?m = set (split_comma fs)"
        using e by (simp add: dom_dict_of flip: set_map)
      have n: "distinct (split_comma fs) \<longrightarrow>
                 (\<forall>i < length eb. ?m (split_comma fs ! i) = Some (eb ! i))"
        using e by (auto intro: dict_of_zip_nth)
      from r d n
      show "\<exists>m. resolve pf so a keys = Inr (filters_to_analyze so a keys, m)
                 \<and> dom m = set (split_comma fs)
                 \<and> (distinct (split_comma fs) \<longrightarrow>
                      (\<forall>i < length eb. m (split_comma fs ! i) = Some (eb ! i)))"
        by blast
    }
    {
      assume "length eb \<noteq> length (split_comma fs)"
      then show "resolve pf so a keys = Inl ValueError"
        using assms h by (simp add: resolve_def Let_def)
    }
  qed
  have nofilters: "filters a = None \<longrightarrow>
         (\<exists>m. resolve pf so a keys = Inr (keys, m) \<and> dom m = set keys)"
  proof
    assume n: "filters a = None"
    have r: "resolve pf so a keys
               = Inr (keys, dict_of (zip keys (concat (replicate (length keys) eb))))"
      using assms n by (simp add: resolve_def Let_def filters_to_analyze_def)
    from r cyclic_budget_dom [OF error_budget_list_nonempty [OF assms], of keys]
    show "\<exists>m. resolve pf so a keys = Inr (keys, m) \<and> dom m = set keys"
      by blast
  qed
  from len scalar list nofilters show ?thesis by blast
qed

text \<open>
  Keeping the first occurrence of each name is one admissible iteration order of a set.
\<close>

lemma set_order_ok_remdups: "set_order_ok remdups"
  by (simp add: set_order_ok_def)

text \<open>
  The filters \<^verbatim>\<open>g,r\<close> with the budget \<^verbatim>\<open>0.1,0.2\<close>:
  \<^verbatim>\<open>g\<close> gets 0.1 and \<^verbatim>\<open>r\<close> gets 0.2.
\<close>

theorem error_budget_resolution_witness:
  "error_budget_list float_tbl budget_ok_args = Inr [Fin (1 / 10), Fin (2 / 10)]
   \<and> filters budget_ok_args = Some ''g,r'' \<and> distinct (split_comma ''g,r'')
   \<and> (\<exists>m. resolve float_tbl remdups budget_ok_args [''g'', ''r'']
             = Inr (filters_to_analyze remdups budget_ok_args [''g'', ''r''], m)
          \<and> dom m = {''g'', ''r''}
          \<and> m ''g'' = Some (Fin (1 / 10)) \<and> m ''r'' = Some (Fin (2 / 10)))"
proof -
  have e: "error_budget_list float_tbl budget_ok_args = Inr [Fin (1 / 10), Fin (2 / 10)]"
    by (simp add: error_budget_list_def budget_ok_args_def float_tbl_def)
  have f: "filters budget_ok_args = Some ''g,r''"
    by (simp add: budget_ok_args_def)
  have s: "split_comma ''g,r'' = [''g'', ''r'']"
    by simp
  from error_budget_resolution [OF e, of remdups "[''g'', ''r'']" "''g,r''"] f s
  obtain m where m: "resolve float_tbl remdups budget_ok_args [''g'', ''r'']
             = Inr (filters_to_analyze remdups budget_ok_args [''g'', ''r''], m)"
      "dom m = set [''g'', ''r'']"
      "\<forall>i < 2. m ([''g'', ''r''] ! i) = Some ([Fin (1 / 10), Fin (2 / 10)] ! i)"
    by auto
  from m(3) have "m ([''g'', ''r''] ! 0) = Some ([Fin (1 / 10), Fin (2 / 10)] ! 0)"
    by (rule allE [where x = 0]) simp
  moreover from m(3) have "m ([''g'', ''r''] ! 1) = Some ([Fin (1 / 10), Fin (2 / 10)] ! 1)"
    by (rule allE [where x = 1]) simp
  ultimately have "m ''g'' = Some (Fin (1 / 10))" "m ''r'' = Some (Fin (2 / 10))"
    by simp_all
  with e f s m(1,2) show ?thesis by auto
qed

text \<open>
  The filters \<^verbatim>\<open>g,r,i\<close> are requested, the data hold
  \<^verbatim>\<open>g\<close> and \<^verbatim>\<open>r\<close> only, and the budget is
  \<^verbatim>\<open>0.1,0.2\<close>: two filters are analysed and the budget has two
  entries, yet the resolution raises, because three filters were requested.  The same
  budget without a requested list, on data of three filters, is accepted.
\<close>

theorem budget_length_is_checked_against_requested_filters:
  "filters_to_analyze remdups budget_args [''g'', ''r''] = [''g'', ''r'']
   \<and> error_budget_list float_tbl budget_args = Inr [Fin (1 / 10), Fin (2 / 10)]
   \<and> resolve float_tbl remdups budget_args [''g'', ''r''] = Inl ValueError
   \<and> map_sum id fst (resolve float_tbl remdups budget_args_no_filters [''g'', ''r'', ''i''])
       = Inr [''g'', ''r'', ''i'']"
proof -
  have s: "split_comma ''g,r,i'' = [''g'', ''r'', ''i'']"
    by simp
  have a: "filters_to_analyze remdups budget_args [''g'', ''r''] = [''g'', ''r'']"
    using requested_order_kept_without_augmentation
            [OF set_order_ok_remdups, of budget_args "''g,r,i''" "[''g'', ''r'']"]
    by (simp add: budget_args_def default_args_def)
  have b: "error_budget_list float_tbl budget_args = Inr [Fin (1 / 10), Fin (2 / 10)]"
    by (simp add: error_budget_list_def budget_args_def float_tbl_def)
  have c: "resolve float_tbl remdups budget_args [''g'', ''r''] = Inl ValueError"
    using b by (simp add: resolve_def Let_def budget_args_def)
  have b': "error_budget_list float_tbl budget_args_no_filters = Inr [Fin (1 / 10), Fin (2 / 10)]"
    by (simp add: error_budget_list_def budget_args_no_filters_def float_tbl_def)
  have d: "map_sum id fst (resolve float_tbl remdups budget_args_no_filters [''g'', ''r'', ''i''])
       = Inr [''g'', ''r'', ''i'']"
    using b' by (simp add: resolve_def Let_def filters_to_analyze_def
                           budget_args_no_filters_def default_args_def)
  from a b c d show ?thesis by simp
qed

subsection \<open>The injection table\<close>

text \<open>
  Both branches of line 530 write a finite uncertainty: the branch of a finite
  uncertainty keeps it, the other one writes 99.0.
\<close>

lemma table_row_of_finite: "isfinite (mag_unc (table_row_of dl f r))"
  by (cases r) (simp add: table_row_of_def split: option.splits)

lemma table_row_of_filt: "filt (table_row_of dl f r) = f"
  by (cases r) (simp add: table_row_of_def split: option.splits)

lemma table_row_of_limit:
  "\<not> isfinite u \<Longrightarrow>
   table_row_of dl f (mjd, m, u)
     = \<lparr> jd = mjd, mag = Fin 99, mag_unc = Fin 99, filt = f, limmag = m, programid = 0 \<rparr>"
  by (simp add: table_row_of_def)

text \<open>The rows of the table are the rows made from the points of the written filters.\<close>

lemma data_out_rows:
  "set (data_out so a fs dl data)
     = {table_row_of dl f r | f rows r. (f, rows) \<in> set data \<and> written so a fs f \<and> r \<in> set rows}"
proof -
  have "x \<in> set (data_out so a fs dl data) \<longleftrightarrow>
        (\<exists>f rows r. x = table_row_of dl f r \<and> (f, rows) \<in> set data \<and> written so a fs f
                      \<and> r \<in> set rows)" for x
  proof
    assume "x \<in> set (data_out so a fs dl data)"
    then obtain fr where fr: "fr \<in> set data"
      and x: "x \<in> set (case fr of (f, rows) \<Rightarrow>
                 if written so a fs f then map (table_row_of dl f) rows else [])"
      by (auto simp: data_out_def)
    obtain f rows where e: "fr = (f, rows)" by (cases fr)
    from x e have w: "written so a fs f" and "x \<in> table_row_of dl f ` set rows"
      by (auto split: if_splits)
    then obtain r where "r \<in> set rows" "x = table_row_of dl f r" by blast
    with fr e w show "\<exists>f rows r. x = table_row_of dl f r \<and> (f, rows) \<in> set data
                       \<and> written so a fs f \<and> r \<in> set rows"
      by blast
  next
    assume "\<exists>f rows r. x = table_row_of dl f r \<and> (f, rows) \<in> set data \<and> written so a fs f
                      \<and> r \<in> set rows"
    then obtain f rows r where h: "x = table_row_of dl f r" "(f, rows) \<in> set data"
        "written so a fs f" "r \<in> set rows"
      by blast
    then show "x \<in> set (data_out so a fs dl data)"
      by (force simp: data_out_def)
  qed
  then show ?thesis by blast
qed

lemma data_out_finite: "r \<in> set (data_out so a fs dl data) \<Longrightarrow> isfinite (mag_unc r)"
  by (auto simp: data_out_rows table_row_of_finite)

lemma reload_points:
  assumes "\<forall>r \<in> set tbl. isfinite (mag_unc r)" "fr \<in> set (reload tbl)" "p \<in> set (snd fr)"
  shows "isfinite (uncertainty p)"
  using assms by (auto simp: reload_def uncertainty_def)

text \<open>
  The removal of non-detections of lines 590 to 596 changes nothing in a dataset
  whose filters each hold a point and hold finite uncertainties only.
\<close>

lemma remove_nondet_id:
  assumes "\<forall>fr \<in> set data. snd fr \<noteq> [] \<and> (\<forall>p \<in> set (snd fr). isfinite (uncertainty p))"
  shows "remove_nondet data = Inr data"
  using assms
proof (induction data)
  case Nil
  then show ?case by simp
next
  case (Cons fr data)
  obtain f rows where fr: "fr = (f, rows)" by (cases fr)
  from Cons.prems fr have ne: "rows \<noteq> []" and fin: "\<forall>p \<in> set rows. isfinite (uncertainty p)"
    by auto
  have w: "np_where (map (\<lambda>r. isfinite (uncertainty r)) rows) = [0 ..< length rows]"
    using fin by (auto simp: np_where_def intro: filter_True)
  have t: "take_rows rows [0 ..< length rows] = rows"
    by (simp add: take_rows_def map_nth)
  from Cons.prems have "remove_nondet data = Inr data"
    by (intro Cons.IH) auto
  with w t ne fr show ?case by (simp add: Let_def)
qed

lemma reload_nonempty: "fr \<in> set (reload tbl) \<Longrightarrow> snd fr \<noteq> []"
  by (auto simp: reload_def filter_empty_conv)

text \<open>
  Without detection limits on the command line nothing in the construction of the table
  raises.
\<close>

lemma injection_table_returns:
  assumes "injection_detection_limit a = None"
  shows "\<exists>tbl. injection_table pf so a data = Inr tbl"
proof -
  have "\<exists>fs. filters_var a = Inr fs"
    by (simp add: filters_var_def Let_def split_comma_nonempty split: option.splits)
  then obtain fs where fs: "filters_var a = Inr fs" by blast
  have "\<exists>dl. detection_limit pf a fs = Inr dl"
    using assms by (simp add: detection_limit_def split: option.splits)
  with fs show ?thesis
    by (auto simp: injection_table_def)
qed

text \<open>
  Claim C10.  Whenever the injection table is built, the \<^verbatim>\<open>mag_unc\<close> cell of
  every row is finite.  A synthesized point whose uncertainty is not finite, in a filter
  that is written, gives the row with magnitude 99.0, uncertainty 99.0, the synthesized
  magnitude in the column \<^verbatim>\<open>limmag\<close> and 0.0 in the column
  \<^verbatim>\<open>programid\<close>.  So the table read back holds finite uncertainties
  only: every point of it passes the test \<^verbatim>\<open>np.isfinite\<close> by which the
  analysis tells a detection from a limit, and the removal of non-detections removes
  nothing from it.
\<close>

theorem injection_table_marks_every_row_as_detection:
  assumes "injection_table pf so a data = Inr tbl"
  shows "(\<forall>r \<in> set tbl. isfinite (mag_unc r))
    \<and> (\<forall>fs f rows mjd m u.
          filters_var a = Inr fs \<and> (f, rows) \<in> set data \<and> written so a fs f
          \<and> (mjd, m, u) \<in> set rows \<and> \<not> isfinite u \<longrightarrow>
            \<lparr> jd = mjd, mag = Fin 99, mag_unc = Fin 99, filt = f, limmag = m, programid = 0 \<rparr>
              \<in> set tbl)
    \<and> (\<forall>fr \<in> set (reload tbl). \<forall>p \<in> set (snd fr). isfinite (uncertainty p))
    \<and> remove_nondet (reload tbl) = Inr (reload tbl)"
proof -
  from assms obtain fs dl where fs: "filters_var a = Inr fs"
    and tbl: "tbl = data_out so a fs dl data"
    by (auto simp: injection_table_def split: sum.splits)
  have fin: "\<forall>r \<in> set tbl. isfinite (mag_unc r)"
    unfolding tbl by (auto dest: data_out_finite)
  have lim: "\<forall>fs f rows mjd m u.
          filters_var a = Inr fs \<and> (f, rows) \<in> set data \<and> written so a fs f
          \<and> (mjd, m, u) \<in> set rows \<and> \<not> isfinite u \<longrightarrow>
            \<lparr> jd = mjd, mag = Fin 99, mag_unc = Fin 99, filt = f, limmag = m, programid = 0 \<rparr>
              \<in> set tbl"
  proof (intro allI impI)
    fix fs' f rows mjd m u
    assume h: "filters_var a = Inr fs' \<and> (f, rows) \<in> set data \<and> written so a fs' f
          \<and> (mjd, m, u) \<in> set rows \<and> \<not> isfinite u"
    with fs have e: "fs' = fs" by simp
    from h e have "table_row_of dl f (mjd, m, u) \<in> set tbl"
      unfolding tbl data_out_rows by blast
    with h show "\<lparr> jd = mjd, mag = Fin 99, mag_unc = Fin 99, filt = f, limmag = m, programid = 0 \<rparr>
              \<in> set tbl"
      by (simp add: table_row_of_limit)
  qed
  have det: "\<forall>fr \<in> set (reload tbl). \<forall>p \<in> set (snd fr). isfinite (uncertainty p)"
    using fin by (blast intro: reload_points)
  have rem: "remove_nondet (reload tbl) = Inr (reload tbl)"
    using det by (intro remove_nondet_id) (auto dest: reload_nonempty)
  from fin lim det rem show ?thesis by blast
qed

text \<open>
  Two filters with three points, two of them limits.  The two limits are written with
  99.0 twice and come back as detections, while the removal of non-detections keeps one
  point of the three in the synthesized data.
\<close>

theorem injection_table_marks_every_row_as_detection_witness:
  "injection_table float_tbl remdups injection_args injected_data
     = Inr [\<lparr> jd = 59000, mag = Fin 20, mag_unc = Fin (1 / 10), filt = ''g'', limmag = PInf,
               programid = 0 \<rparr>,
            \<lparr> jd = 59001, mag = Fin 99, mag_unc = Fin 99, filt = ''g'', limmag = Fin 23,
               programid = 0 \<rparr>,
            \<lparr> jd = 59000, mag = Fin 99, mag_unc = Fin 99, filt = ''r'', limmag = Fin 21,
               programid = 0 \<rparr>]
   \<and> reload (projr (injection_table float_tbl remdups injection_args injected_data))
       = [(''g'', [(59000, Fin 20, Fin (1 / 10)), (59001, Fin 99, Fin 99)]),
          (''r'', [(59000, Fin 99, Fin 99)])]
   \<and> remove_nondet (reload (projr (injection_table float_tbl remdups injection_args injected_data)))
       = Inr (reload (projr (injection_table float_tbl remdups injection_args injected_data)))
   \<and> remove_nondet injected_data = Inr [(''g'', [(59000, Fin 20, Fin (1 / 10))])]
   \<and> filters_var injection_args = Inr (Some [''g'', ''r''])
   \<and> (''g'', [(59000, Fin 20, Fin (1 / 10)), (59001, Fin 23, PInf)]) \<in> set injected_data
   \<and> written remdups injection_args (Some [''g'', ''r'']) ''g''
   \<and> \<not> isfinite PInf
   \<and> \<lparr> jd = 59001, mag = Fin 99, mag_unc = Fin 99, filt = ''g'', limmag = Fin 23,
          programid = 0 \<rparr>
         \<in> set (projr (injection_table float_tbl remdups injection_args injected_data))"
proof -
  let ?T = "[\<lparr> jd = 59000, mag = Fin 20, mag_unc = Fin (1 / 10), filt = ''g'', limmag = PInf,
               programid = 0 \<rparr>,
            \<lparr> jd = 59001, mag = Fin 99, mag_unc = Fin 99, filt = ''g'', limmag = Fin 23,
               programid = 0 \<rparr>,
            \<lparr> jd = 59000, mag = Fin 99, mag_unc = Fin 99, filt = ''r'', limmag = Fin 21,
               programid = (0::real) \<rparr>]"
  have e: "injection_table float_tbl remdups injection_args injected_data = Inr ?T"
    by (simp add: injection_table_def injection_args_def default_args_def injected_data_def
                  filters_var_def strip_spaces_def detection_limit_def data_out_def
                  written_def filts_def table_row_of_def dict_of_def Let_def)
  have r: "reload ?T = [(''g'', [(59000, Fin 20, Fin (1 / 10)), (59001, Fin 99, Fin 99)]),
                        (''r'', [(59000, Fin 99, Fin 99)])]"
    by (simp add: reload_def)
  from injection_table_marks_every_row_as_detection [OF e]
  have k: "remove_nondet (reload ?T) = Inr (reload ?T)"
    by blast
  have d: "remove_nondet injected_data = Inr [(''g'', [(59000, Fin 20, Fin (1 / 10))])]"
    by (simp add: injected_data_def np_where_def take_rows_def uncertainty_def Let_def)
  have f: "filters_var injection_args = Inr (Some [''g'', ''r''])"
    by (simp add: filters_var_def injection_args_def default_args_def strip_spaces_def)
  have g: "(''g'', [(59000, Fin 20, Fin (1 / 10)), (59001, Fin 23, PInf)]) \<in> set injected_data"
    by (simp add: injected_data_def)
  have w: "written remdups injection_args (Some [''g'', ''r'']) ''g''"
    by (simp add: written_def filts_def injection_args_def default_args_def)
  have n: "\<not> isfinite PInf"
    by simp
  have p: "(59001, Fin 23, PInf) \<in> set [(59000, Fin 20, Fin (1 / 10)), (59001, Fin 23, PInf)]"
    by simp
  from injection_table_marks_every_row_as_detection [OF e] f g w n p
  have l: "\<lparr> jd = 59001, mag = Fin 99, mag_unc = Fin 99, filt = ''g'', limmag = Fin 23,
            programid = 0 \<rparr> \<in> set ?T"
    by blast
  from e r k d f g w n l show ?thesis by simp
qed

subsection \<open>The stored arrays after the sampler\<close>

text \<open>
  The chi-square loop works on a copy of each array (line 818), so it only adds arrays
  to the store: every array that was there keeps its place and its content.
\<close>

lemma chi2_filter_extends:
  assumes "chi2_filter bp grid mags pd eb h f = Inr (h', r)"
  shows "\<exists>x. h' = h @ [x]"
proof -
  from assms obtain a where h': "h' = (case bp ''timeshift'' of None \<Rightarrow> h @ [h ! a]
                                       | Some s \<Rightarrow> iadd_epochs (h @ [h ! a]) (length h) s)"
    by (auto simp: chi2_filter_def deepcopy_def Let_def split: option.splits sum.splits)
  show ?thesis
    unfolding h' by (simp add: iadd_epochs_def split: option.splits)
qed

lemma chi2_loop_extends:
  assumes "chi2_loop bp grid mags pd eb fta (h, c, n, d) = Inr (h', c', n', d')"
  shows "\<exists>xs. h' = h @ xs"
  using assms
proof (induction fta arbitrary: h c n d)
  case Nil
  then show ?case by simp
next
  case (Cons f fta)
  from Cons.prems obtain h1 r where s: "chi2_filter bp grid mags pd eb h f = Inr (h1, r)"
    by (auto split: sum.splits)
  then obtain x where h1: "h1 = h @ [x]"
    by (blast dest: chi2_filter_extends)
  from Cons.prems s obtain c1 n1 d1 where
    "chi2_loop bp grid mags pd eb fta (h1, c1, n1, d1) = Inr (h', c', n', d')"
    by (cases r) auto
  then obtain xs where "h' = h1 @ xs"
    by (blast dest: Cons.IH)
  with h1 show ?case by simp
qed

lemma chi2_stage_keeps_store:
  assumes "chi2_per_dof bp ts mags pd eb fta h = Inr (h', r)"
  shows "length h \<le> length h' \<and> (\<forall>a < length h. h' ! a = h ! a)"
proof -
  from assms obtain c n d where
    "chi2_loop bp (bestfit_sample_times bp ts) mags pd eb fta (h, Fin 0, 0, Map.empty)
       = Inr (h', c, n, d)"
    by (auto simp: chi2_per_dof_def split: sum.splits if_splits)
  then obtain xs where "h' = h @ xs"
    by (blast dest: chi2_loop_extends)
  then show ?thesis
    by (simp add: nth_append)
qed

text \<open>
  The loop of the plot subtracts the trigger time from the epochs of the array of each
  filter it draws (line 909), in the store.
\<close>

lemma plot_loop_other:
  assumes "\<forall>g \<in> set fps. data g \<noteq> None \<and> eb g \<noteq> None \<and> data g \<noteq> Some a"
  shows "\<exists>h'. plot_loop data eb trig fps h = Inr h' \<and> h' ! a = h ! a \<and> length h' = length h"
  using assms
proof (induction fps arbitrary: h)
  case Nil
  then show ?case by simp
next
  case (Cons g fps)
  from Cons.prems obtain b e where b: "data g = Some b" "b \<noteq> a" and e: "eb g = Some e"
    by auto
  from Cons.prems
  obtain h' where h': "plot_loop data eb trig fps (isub_epochs h b trig) = Inr h'"
      "h' ! a = isub_epochs h b trig ! a" "length h' = length (isub_epochs h b trig)"
    using Cons.IH [of "isub_epochs h b trig"] by auto
  from b h' e show ?case
    by (simp add: isub_epochs_def)
qed

lemma plot_loop_one:
  assumes "distinct fps" "f \<in> set fps" "data f = Some a" "a < length h"
    and "\<forall>g \<in> set fps. g \<noteq> f \<longrightarrow> data g \<noteq> Some a"
    and "\<forall>g \<in> set fps. data g \<noteq> None \<and> eb g \<noteq> None"
  shows "\<exists>h'. plot_loop data eb trig fps h = Inr h'
           \<and> h' ! a = map (\<lambda>r. (epoch r - trig, magnitude r, uncertainty r)) (h ! a)"
  using assms
proof (induction fps arbitrary: h)
  case Nil
  then show ?case by simp
next
  case (Cons g fps)
  from Cons.prems obtain b e where b: "data g = Some b" and e: "eb g = Some e"
    by auto
  show ?case
  proof (cases "g = f")
    case True
    with Cons.prems b have ba: "b = a" by simp
    from Cons.prems True have "\<forall>k \<in> set fps. data k \<noteq> None \<and> eb k \<noteq> None \<and> data k \<noteq> Some a"
      by auto
    from plot_loop_other [OF this, of trig "isub_epochs h a trig"]
    obtain h' where "plot_loop data eb trig fps (isub_epochs h a trig) = Inr h'"
      "h' ! a = isub_epochs h a trig ! a"
      by blast
    with b e ba Cons.prems(4) show ?thesis
      by (simp add: isub_epochs_def)
  next
    case False
    with Cons.prems b have nb: "b \<noteq> a" by auto
    from Cons.prems False
    have "\<exists>h'. plot_loop data eb trig fps (isub_epochs h b trig) = Inr h'
           \<and> h' ! a = map (\<lambda>r. (epoch r - trig, magnitude r, uncertainty r))
                          (isub_epochs h b trig ! a)"
      by (intro Cons.IH) (auto simp: isub_epochs_def)
    with b e nb show ?thesis
      by (simp add: isub_epochs_def)
  qed
qed

text \<open>
  Claim C6.  The plot changes the stored epochs: for a filter that gets a panel, whose
  array is not the array of another analysed filter, the array of \<^verbatim>\<open>data\<close>
  holds after the plot the epochs minus the trigger time (magnitudes and uncertainties
  are kept).  So the dataset is not the same before and after the rest of the run,
  unless the trigger time is zero.
\<close>

theorem plot_moves_stored_epochs:
  assumes "distinct fta" "data f = Some a" "a < length h"
    and "f \<in> set (filters_plot h data fta)"
    and "\<forall>g \<in> set fta. g \<noteq> f \<longrightarrow> data g \<noteq> Some a"
    and "\<forall>g \<in> set fta. eb g \<noteq> None"
  shows "\<exists>h'. plot_stage data eb trigger_time fta h = Inr h'
           \<and> h' ! a = map (\<lambda>r. (epoch r - trigger_time, magnitude r, uncertainty r)) (h ! a)"
proof -
  have d: "distinct (filters_plot h data fta)"
    using assms(1) by (simp add: filters_plot_def)
  have o: "\<forall>g \<in> set (filters_plot h data fta). g \<noteq> f \<longrightarrow> data g \<noteq> Some a"
    using assms(5) by (simp add: filters_plot_def)
  have p: "\<forall>g \<in> set (filters_plot h data fta). data g \<noteq> None \<and> eb g \<noteq> None"
    using assms(6) by (auto simp: filters_plot_def split: option.splits)
  from plot_loop_one [OF d assms(4) assms(2) assms(3) o p]
  show ?thesis
    by (simp add: plot_stage_def)
qed

text \<open>
  The epoch 59000.5 of the one stored point is 0.5 after the plot.
\<close>

theorem plot_moves_stored_epochs_witness:
  "distinct [''g''] \<and> [''g'' \<mapsto> 0::nat] ''g'' = Some 0 \<and> 0 < length one_point_store
   \<and> ''g'' \<in> set (filters_plot one_point_store [''g'' \<mapsto> 0] [''g''])
   \<and> one_point_store ! 0 = [(590005 / 10, Fin 20, Fin (1 / 10))]
   \<and> (\<exists>h'. plot_stage [''g'' \<mapsto> 0] [''g'' \<mapsto> Fin 1] 59000 [''g''] one_point_store = Inr h'
           \<and> h' ! 0 = [(1 / 2, Fin 20, Fin (1 / 10))])"
proof -
  have f: "''g'' \<in> set (filters_plot one_point_store [''g'' \<mapsto> 0] [''g''])"
    by (simp add: filters_plot_def one_point_store_def np_where_def magnitude_def)
  have s: "one_point_store ! 0 = [(590005 / 10, Fin 20, Fin (1 / 10))]"
    by (simp add: one_point_store_def)
  have l: "0 < length one_point_store"
    by (simp add: one_point_store_def)
  from plot_moves_stored_epochs [of "[''g'']" "[''g'' \<mapsto> 0]" "''g''" 0 one_point_store
          "[''g'' \<mapsto> Fin 1]" 59000] f l
  have "\<exists>h'. plot_stage [''g'' \<mapsto> 0] [''g'' \<mapsto> Fin 1] 59000 [''g''] one_point_store = Inr h'
           \<and> h' ! 0 = map (\<lambda>r. (epoch r - 59000, magnitude r, uncertainty r))
                          (one_point_store ! 0)"
    by simp
  with f s l show ?thesis
    by (simp add: epoch_def magnitude_def uncertainty_def)
qed

text \<open>
  The same on the whole of the run after the sampler: the chi-square loop adds its copy
  at position 2, and the plot rewrites position 0.
\<close>

lemma run_with_plot_moves_epochs:
  "after_sampling plot_args Map.empty [0, 1] [''g'' \<mapsto> [20, 21]] [''g'' \<mapsto> 0] [''g'' \<mapsto> 1]
       [''g'' \<mapsto> Fin 1] 59000 [''g''] one_point_store
     = Inr [[(1 / 2, Fin 20, Fin (1 / 10))], [(1 / 2, Fin 20, Fin (1 / 10))],
            [(1 / 2, Fin 20, Fin (1 / 10))]]"
  by (simp add: after_sampling_def plot_args_def default_args_def chi2_per_dof_def
        bestfit_sample_times_def chi2_filter_def interp1d_def deepcopy_def chi2_rows_def
        np_where_def take_rows_def fetch_err_def interp_call_def chi2_term_def np_sum_def
        fsq_def fsub_def one_point_store_def plot_stage_def filters_plot_def isub_epochs_def
        epoch_def magnitude_def uncertainty_def Let_def)

subsection \<open>The chi-square of a filter\<close>














subsection \<open>The overall chi-square per degree of freedom\<close>

text \<open>
  The rows the loop works on are the rows of the processed data, with shifted epochs
  when there is a time shift; what the loop gets from a filter does not depend on the
  copies the loop has added to the store.
\<close>

lemma copied_rows:
  "(case bp ''timeshift'' of None \<Rightarrow> h @ [h ! a] | Some s \<Rightarrow> iadd_epochs (h @ [h ! a]) (length h) s)
     ! length h
   = (case bp ''timeshift'' of None \<Rightarrow> h ! a
      | Some s \<Rightarrow> map (\<lambda>r. (epoch r + s, magnitude r, uncertainty r)) (h ! a))"
  by (simp add: iadd_epochs_def split: option.splits)

lemma per_filter_rows:
  "per_filter bp grid mags pd eb h f =
     (case mags f of
        None \<Rightarrow> Inl KeyError
      | Some mag_used \<Rightarrow>
          (case interp1d grid mag_used of
             Inl e \<Rightarrow> Inl e
           | Inr interp \<Rightarrow>
               (case pd f of
                  None \<Rightarrow> Inl KeyError
                | Some a \<Rightarrow>
                    chi2_rows bp eb interp f
                      (case bp ''timeshift'' of None \<Rightarrow> h ! a
                       | Some s \<Rightarrow> map (\<lambda>r. (epoch r + s, magnitude r, uncertainty r)) (h ! a)))))"
  unfolding per_filter_def chi2_filter_def deepcopy_def
  by (simp add: copied_rows Let_def split: option.splits sum.splits)

lemma per_filter_append:
  assumes "\<forall>a. pd f = Some a \<longrightarrow> a < length h"
  shows "per_filter bp grid mags pd eb (h @ xs) f = per_filter bp grid mags pd eb h f"
  using assms by (simp add: per_filter_rows nth_append split: option.splits sum.splits)

lemma chi2_filter_per_filter:
  assumes "per_filter bp grid mags pd eb h f = Inr r"
  shows "\<exists>x. chi2_filter bp grid mags pd eb h f = Inr (h @ [x], r)"
proof (cases "chi2_filter bp grid mags pd eb h f")
  case (Inl e)
  with assms show ?thesis by (simp add: per_filter_def)
next
  case (Inr hr)
  obtain h' r' where hr: "hr = (h', r')" by (cases hr)
  with Inr assms have "r' = r" by (simp add: per_filter_def)
  moreover from Inr hr obtain x where "h' = h @ [x]"
    by (blast dest: chi2_filter_extends)
  ultimately show ?thesis using Inr hr by simp
qed

lemma contributions_Cons:
  "contributions bp grid mags pd eb h (f # fta)
     = (case per_filter bp grid mags pd eb h f of Inr (Some r) \<Rightarrow> [r] | _ \<Rightarrow> [])
       @ contributions bp grid mags pd eb h fta"
  by (simp add: contributions_def)

text \<open>
  When the body of the loop returns for every filter, the loop returns, with the
  chi-squares added up from left to right and the detections counted.
\<close>

lemma chi2_loop_result:
  assumes "\<forall>f \<in> set fta. \<forall>a. pd f = Some a \<longrightarrow> a < length h0"
    and "\<forall>f \<in> set fta. \<exists>r. per_filter bp grid mags pd eb h0 f = Inr r"
  shows "\<exists>h' d'. chi2_loop bp grid mags pd eb fta (h0 @ xs, c, n, d)
           = Inr (h', foldl fadd c (map fst (contributions bp grid mags pd eb h0 fta)),
                  n + sum_list (map snd (contributions bp grid mags pd eb h0 fta)), d')"
  using assms
proof (induction fta arbitrary: xs c n d)
  case Nil
  then show ?case by (simp add: contributions_def)
next
  case (Cons f fta)
  from Cons.prems obtain r where r: "per_filter bp grid mags pd eb h0 f = Inr r"
    by auto
  from Cons.prems have "\<forall>a. pd f = Some a \<longrightarrow> a < length h0"
    by simp
  then have "per_filter bp grid mags pd eb (h0 @ xs) f = Inr r"
    using r by (simp add: per_filter_append)
  then obtain x where s: "chi2_filter bp grid mags pd eb (h0 @ xs) f = Inr (h0 @ xs @ [x], r)"
    by (auto dest: chi2_filter_per_filter)
  from Cons.prems have p: "\<forall>f \<in> set fta. \<forall>a. pd f = Some a \<longrightarrow> a < length h0"
      "\<forall>f \<in> set fta. \<exists>r. per_filter bp grid mags pd eb h0 f = Inr r"
    by simp_all
  have ih: "\<exists>h' d'. chi2_loop bp grid mags pd eb fta (h0 @ xs @ [x], c', n', D)
           = Inr (h', foldl fadd c' (map fst (contributions bp grid mags pd eb h0 fta)),
                  n' + sum_list (map snd (contributions bp grid mags pd eb h0 fta)), d')"
    for c' n' D
    by (rule Cons.IH [OF p])
  show ?case
  proof (cases r)
    case None
    have step: "chi2_loop bp grid mags pd eb (f # fta) (h0 @ xs, c, n, d)
                  = chi2_loop bp grid mags pd eb fta (h0 @ xs @ [x], c, n, d)"
      using s None by simp
    have con: "contributions bp grid mags pd eb h0 (f # fta) = contributions bp grid mags pd eb h0 fta"
      using r None by (simp add: contributions_Cons)
    show ?thesis
      unfolding step con by (rule ih)
  next
    case (Some cn)
    obtain c1 n1 where cn: "cn = (c1, n1)" by (cases cn)
    have step: "chi2_loop bp grid mags pd eb (f # fta) (h0 @ xs, c, n, d)
                  = chi2_loop bp grid mags pd eb fta
                      (h0 @ xs @ [x], fadd c c1, n + n1, d(f \<mapsto> fdiv c1 (Fin (real n1))))"
      using s Some cn by simp
    have con: "contributions bp grid mags pd eb h0 (f # fta)
                 = (c1, n1) # contributions bp grid mags pd eb h0 fta"
      using r Some cn by (simp add: contributions_Cons)
    from ih [of "fadd c c1" "n + n1" "d(f \<mapsto> fdiv c1 (Fin (real n1)))"]
    show ?thesis
      unfolding step con by (simp only: list.map fst_conv snd_conv foldl_Cons sum_list.Cons add.assoc)
  qed
qed

text \<open>
  The number a filter contributes is the number of its detections, and a filter
  contributes exactly when it has one.
\<close>

lemma chi2_rows_count:
  "chi2_rows bp eb interp f rows = Inr (Some (c, n)) \<Longrightarrow> n = length (detections rows) \<and> 0 < n"
  "chi2_rows bp eb interp f rows = Inr None \<Longrightarrow> detections rows = []"
proof -
  have l: "length (np_where (map (\<lambda>r. isfinite (uncertainty r)) rows)) = length (detections rows)"
  proof -
    have "length (take_rows rows (np_where (map (\<lambda>r. isfinite (uncertainty r)) rows)))
            = length (np_where (map (\<lambda>r. isfinite (uncertainty r)) rows))"
      by (simp add: take_rows_def)
    then show ?thesis
      by (simp add: take_rows_np_where detections_def)
  qed
  have e: "(np_where (map (\<lambda>r. isfinite (uncertainty r)) rows) = []) = (detections rows = [])"
    using l by (metis length_0_conv)
  show "chi2_rows bp eb interp f rows = Inr (Some (c, n)) \<Longrightarrow> n = length (detections rows) \<and> 0 < n"
    by (auto simp: chi2_rows_def Let_def l e split: if_splits sum.splits)
  show "chi2_rows bp eb interp f rows = Inr None \<Longrightarrow> detections rows = []"
    by (auto simp: chi2_rows_def Let_def l e split: if_splits sum.splits)
qed

lemma detections_copy:
  "length (detections (case bp ''timeshift'' of None \<Rightarrow> rows
             | Some s \<Rightarrow> map (\<lambda>r. (epoch r + s, magnitude r, uncertainty r)) rows))
     = length (detections rows)"
  by (simp add: detections_def filter_map o_def uncertainty_def split: option.splits)

lemma per_filter_count:
  assumes "per_filter bp grid mags pd eb h f = Inr r"
  shows "\<exists>a. pd f = Some a \<and> (case r of None \<Rightarrow> detections (h ! a) = []
                                  | Some cn \<Rightarrow> snd cn = length (detections (h ! a)) \<and> 0 < snd cn)"
proof -
  from assms obtain mu interp a where a: "pd f = Some a"
    and c: "chi2_rows bp eb interp f
              (case bp ''timeshift'' of None \<Rightarrow> h ! a
               | Some s \<Rightarrow> map (\<lambda>r. (epoch r + s, magnitude r, uncertainty r)) (h ! a)) = Inr r"
    by (auto simp: per_filter_rows split: option.splits sum.splits)
  show ?thesis
  proof (cases r)
    case None
    with c have "length (detections (case bp ''timeshift'' of None \<Rightarrow> h ! a
               | Some s \<Rightarrow> map (\<lambda>r. (epoch r + s, magnitude r, uncertainty r)) (h ! a))) = 0"
      by (simp add: chi2_rows_count(2))
    with a None show ?thesis
      by (simp add: detections_copy)
  next
    case (Some cn)
    obtain c1 n1 where cn: "cn = (c1, n1)" by (cases cn)
    from c Some cn chi2_rows_count(1) [of bp eb interp f _ c1 n1]
    have "n1 = length (detections (case bp ''timeshift'' of None \<Rightarrow> h ! a
               | Some s \<Rightarrow> map (\<lambda>r. (epoch r + s, magnitude r, uncertainty r)) (h ! a))) \<and> 0 < n1"
      by simp
    then have k2: "n1 = length (detections (h ! a))" and k3: "detections (h ! a) \<noteq> []"
      unfolding detections_copy by auto
    show ?thesis
      using a Some cn k2 k3 by simp
  qed
qed


text \<open>Without any detection the loop raises, or leaves its accumulators as they were.\<close>

lemma chi2_loop_no_detection:
  assumes "\<forall>f \<in> set fta. \<forall>a. pd f = Some a \<longrightarrow> a < length h0 \<and> detections (h0 ! a) = []"
  shows "(\<exists>e. chi2_loop bp grid mags pd eb fta (h0 @ xs, c, n, d) = Inl e)
       \<or> (\<exists>h'. chi2_loop bp grid mags pd eb fta (h0 @ xs, c, n, d) = Inr (h', c, n, d))"
  using assms
proof (induction fta arbitrary: xs)
  case Nil
  then show ?case by simp
next
  case (Cons f fta)
  show ?case
  proof (cases "chi2_filter bp grid mags pd eb (h0 @ xs) f")
    case (Inl e)
    then show ?thesis by simp
  next
    case (Inr hr)
    obtain h' r where hr: "hr = (h', r)" by (cases hr)
    from Inr hr obtain x where h': "h' = h0 @ xs @ [x]"
      by (auto dest: chi2_filter_extends)
    from Inr hr have pf: "per_filter bp grid mags pd eb (h0 @ xs) f = Inr r"
      by (simp add: per_filter_def)
    from Cons.prems have v: "\<forall>a. pd f = Some a \<longrightarrow> a < length h0"
      by simp
    from pf v have "per_filter bp grid mags pd eb h0 f = Inr r"
      by (simp add: per_filter_append)
    from per_filter_count [OF this] Cons.prems have "r = None"
      by (cases r) auto
    with Inr hr h'
    have step: "chi2_loop bp grid mags pd eb (f # fta) (h0 @ xs, c, n, d)
                  = chi2_loop bp grid mags pd eb fta (h0 @ xs @ [x], c, n, d)"
      by simp
    from Cons.prems
    have "\<forall>f \<in> set fta. \<forall>a. pd f = Some a \<longrightarrow> a < length h0 \<and> detections (h0 ! a) = []"
      by simp
    from Cons.IH [OF this, of "xs @ [x]"] show ?thesis
      unfolding step by simp
  qed
qed

text \<open>
  Claim C8.  When no analysed filter has a detection in the processed data, the
  computation fails and gives no overall chi-square per degree of freedom.  When the
  body of the loop returns for every analysed filter, the total number of degrees of
  freedom is zero exactly when there is no detection; then line 845 raises
  \<^verbatim>\<open>ZeroDivisionError\<close>, and otherwise the computation returns the sum of the
  chi-squares of the filters divided by the sum of their numbers of detections.
\<close>

theorem chi2_per_dof_total:
  assumes "\<forall>f \<in> set fta. \<forall>a. pd f = Some a \<longrightarrow> a < length h"
  shows "((\<forall>f \<in> set fta. \<forall>a. pd f = Some a \<longrightarrow> detections (h ! a) = []) \<longrightarrow>
            (\<exists>e. chi2_per_dof bp ts mags pd eb fta h = Inl e))
    \<and> ((\<forall>f \<in> set fta. \<exists>r. per_filter bp (bestfit_sample_times bp ts) mags pd eb h f = Inr r) \<longrightarrow>
         (let cs = contributions bp (bestfit_sample_times bp ts) mags pd eb h fta;
              dof = sum_list (map snd cs)
          in (dof = 0 \<longleftrightarrow> (\<forall>f \<in> set fta. \<forall>a. pd f = Some a \<longrightarrow> detections (h ! a) = []))
             \<and> (dof = 0 \<longrightarrow> chi2_per_dof bp ts mags pd eb fta h = Inl ZeroDivisionError)
             \<and> (dof \<noteq> 0 \<longrightarrow>
                   (\<exists>h' d. chi2_per_dof bp ts mags pd eb fta h
                      = Inr (h', fdiv (np_sum (map fst cs)) (Fin (real dof)), d)))))"
proof (intro conjI impI)
  assume nd: "\<forall>f \<in> set fta. \<forall>a. pd f = Some a \<longrightarrow> detections (h ! a) = []"
  with assms
  have "\<forall>f \<in> set fta. \<forall>a. pd f = Some a \<longrightarrow> a < length h \<and> detections (h ! a) = []"
    by blast
  from chi2_loop_no_detection [OF this, of bp "bestfit_sample_times bp ts" mags eb "[]" "Fin 0" 0 Map.empty]
  show "\<exists>e. chi2_per_dof bp ts mags pd eb fta h = Inl e"
    by (auto simp: chi2_per_dof_def)
next
  let ?g = "bestfit_sample_times bp ts"
  let ?cs = "contributions bp ?g mags pd eb h fta"
  assume ok: "\<forall>f \<in> set fta. \<exists>r. per_filter bp ?g mags pd eb h f = Inr r"
  from chi2_loop_result [OF assms ok, of "[]" "Fin 0" 0 Map.empty]
  obtain h' d' where loop: "chi2_loop bp ?g mags pd eb fta (h, Fin 0, 0, Map.empty)
           = Inr (h', np_sum (map fst ?cs), sum_list (map snd ?cs), d')"
    by (auto simp: np_sum_def)
  have zero: "(sum_list (map snd ?cs) = 0) = (\<forall>f \<in> set fta. \<forall>a. pd f = Some a \<longrightarrow> detections (h ! a) = [])"
    using ok
  proof (induction fta)
    case Nil
    then show ?case by (simp add: contributions_def)
  next
    case (Cons f fta)
    from Cons.prems obtain r where r: "per_filter bp ?g mags pd eb h f = Inr r"
      by auto
    from per_filter_count [OF r] obtain a where a: "pd f = Some a"
      and k: "case r of None \<Rightarrow> detections (h ! a) = []
              | Some cn \<Rightarrow> snd cn = length (detections (h ! a)) \<and> 0 < snd cn"
      by blast
    from Cons.prems have "\<forall>f \<in> set fta. \<exists>r. per_filter bp ?g mags pd eb h f = Inr r"
      by simp
    note ih = Cons.IH [OF this]
    show ?case
    proof (cases r)
      case None
      with r a k ih show ?thesis
        by (simp add: contributions_Cons)
    next
      case (Some cn)
      with r a k ih show ?thesis
        by (auto simp: contributions_Cons)
    qed
  qed
  show "let cs = ?cs; dof = sum_list (map snd cs)
          in (dof = 0 \<longleftrightarrow> (\<forall>f \<in> set fta. \<forall>a. pd f = Some a \<longrightarrow> detections (h ! a) = []))
             \<and> (dof = 0 \<longrightarrow> chi2_per_dof bp ts mags pd eb fta h = Inl ZeroDivisionError)
             \<and> (dof \<noteq> 0 \<longrightarrow>
                   (\<exists>h' d. chi2_per_dof bp ts mags pd eb fta h
                      = Inr (h', fdiv (np_sum (map fst cs)) (Fin (real dof)), d)))"
    unfolding Let_def
    using zero loop by (simp add: chi2_per_dof_def)
qed


text \<open>The definitions a worked input of the loop is evaluated with.\<close>

lemmas chi2_eval =
  per_filter_rows bestfit_sample_times_def interp1d_def chi2_rows_def np_where_def take_rows_def
  fetch_err_def interp_call_def chi2_term_def np_sum_def fsq_def fsub_def
  epoch_def magnitude_def uncertainty_def Let_def ramp_mags_def two_filter_processed_def
  unit_budget_def two_filter_store_def limits_store_def

text \<open>
  Two filters with chi-squares 0.5 and 2 and one detection each give 2.5 / 2 = 1.25; a
  filter with a limit only gives the division by zero.
\<close>

theorem chi2_per_dof_total_witness:
  "contributions Map.empty (bestfit_sample_times Map.empty [0, 1]) ramp_mags two_filter_processed
       unit_budget two_filter_store [''g'', ''r'']
     = [(Fin (1 / 2), 1), (Fin 2, 1)]
   \<and> (\<exists>h' d. chi2_per_dof Map.empty [0, 1] ramp_mags two_filter_processed unit_budget [''g'', ''r'']
                 two_filter_store
               = Inr (h', Fin (5 / 4), d))
   \<and> detections (limits_store ! 0) = []
   \<and> chi2_per_dof Map.empty [0, 1] ramp_mags two_filter_processed unit_budget [''g''] limits_store
       = Inl ZeroDivisionError"
proof -
  let ?g = "bestfit_sample_times Map.empty [0, 1]"
  have g: "per_filter Map.empty ?g ramp_mags two_filter_processed unit_budget two_filter_store ''g''
             = Inr (Some (Fin (1 / 2), 1))"
    by (simp add: chi2_eval)
  have r: "per_filter Map.empty ?g ramp_mags two_filter_processed unit_budget two_filter_store ''r''
             = Inr (Some (Fin 2, 1))"
    by (simp add: chi2_eval)
  have l: "per_filter Map.empty ?g ramp_mags two_filter_processed unit_budget limits_store ''g''
             = Inr None"
    by (simp add: chi2_eval)
  have c: "contributions Map.empty ?g ramp_mags two_filter_processed unit_budget two_filter_store
             [''g'', ''r''] = [(Fin (1 / 2), 1), (Fin 2, 1)]"
    by (simp add: contributions_def g r)
  have c0: "contributions Map.empty ?g ramp_mags two_filter_processed unit_budget limits_store [''g'']
              = []"
    by (simp add: contributions_def l)
  have v: "\<forall>f \<in> set [''g'', ''r'']. \<forall>a. two_filter_processed f = Some a \<longrightarrow> a < length two_filter_store"
    by (simp add: two_filter_processed_def two_filter_store_def)
  have v0: "\<forall>f \<in> set [''g'']. \<forall>a. two_filter_processed f = Some a \<longrightarrow> a < length limits_store"
    by (simp add: two_filter_processed_def limits_store_def)
  have ok: "\<forall>f \<in> set [''g'', ''r''].
              \<exists>x. per_filter Map.empty ?g ramp_mags two_filter_processed unit_budget two_filter_store f = Inr x"
    using g r by simp
  have ok0: "\<forall>f \<in> set [''g''].
              \<exists>x. per_filter Map.empty ?g ramp_mags two_filter_processed unit_budget limits_store f = Inr x"
    using l by simp
  have d0: "detections (limits_store ! 0) = []"
    by (simp add: detections_def limits_store_def uncertainty_def)
  from chi2_per_dof_total [OF v, of Map.empty "[0, 1]" ramp_mags unit_budget] ok
  have a: "\<exists>h' d. chi2_per_dof Map.empty [0, 1] ramp_mags two_filter_processed unit_budget [''g'', ''r'']
                 two_filter_store
               = Inr (h', Fin (5 / 4), d)"
    unfolding Let_def c by (simp add: np_sum_def)
  from chi2_per_dof_total [OF v0, of Map.empty "[0, 1]" ramp_mags unit_budget] ok0
  have b: "chi2_per_dof Map.empty [0, 1] ramp_mags two_filter_processed unit_budget [''g''] limits_store
             = Inl ZeroDivisionError"
    unfolding Let_def c0 by simp
  from c a d0 b show ?thesis
    by simp
qed

end
